theory Spec2Isabelle
  imports Complex_Main "HOL-Library.Multiset"
begin

section \<open>Numeric cells\<close>

text \<open>
  A numeric cell of a pandas column is a float64.  The model keeps the three special
  values that decide which rows survive \<^verbatim>\<open>dropna\<close> and computes on finite values
  with exact real arithmetic: rounding, overflow and the sign of zero are not modelled.
  A zero divisor therefore behaves as \<^verbatim>\<open>+0.0\<close>: a non-zero finite number divided by
  zero is the infinity with the sign of the numerator, and \<^verbatim>\<open>0/0\<close> is NaN.

  What rounding can change is the finite value a computed cell holds, and with it a
  comparison or a division whose outcome hangs on two computed values being equal.  The
  trend flags, the RSI at a zero mean loss and the row count are therefore stated about
  the cells of the columns involved, whatever values they hold; the lemmas that need a
  standard deviation to be non-zero are lemmas of exact arithmetic.
\<close>

datatype fl = Fin real | PInf | NInf | NaN

text \<open>\<^verbatim>\<open>isna\<close>: only NaN counts as missing; the infinities are values.\<close>

fun is_nan :: "fl \<Rightarrow> bool" where
  "is_nan NaN = True"
| "is_nan _ = False"

definition inf_of_sign :: "real \<Rightarrow> fl" where
  "inf_of_sign s = (if 0 < s then PInf else if s < 0 then NInf else NaN)"

fun fneg :: "fl \<Rightarrow> fl" where
  "fneg (Fin a) = Fin (- a)"
| "fneg PInf = NInf"
| "fneg NInf = PInf"
| "fneg NaN = NaN"

fun fadd :: "fl \<Rightarrow> fl \<Rightarrow> fl" where
  "fadd (Fin a) (Fin b) = Fin (a + b)"
| "fadd NaN _ = NaN"
| "fadd _ NaN = NaN"
| "fadd PInf NInf = NaN"
| "fadd NInf PInf = NaN"
| "fadd PInf _ = PInf"
| "fadd _ PInf = PInf"
| "fadd NInf _ = NInf"
| "fadd _ NInf = NInf"

definition fsub :: "fl \<Rightarrow> fl \<Rightarrow> fl" where
  "fsub a b = fadd a (fneg b)"

fun fmul :: "fl \<Rightarrow> fl \<Rightarrow> fl" where
  "fmul (Fin a) (Fin b) = Fin (a * b)"
| "fmul NaN _ = NaN"
| "fmul _ NaN = NaN"
| "fmul (Fin a) PInf = inf_of_sign a"
| "fmul (Fin a) NInf = inf_of_sign (- a)"
| "fmul PInf (Fin b) = inf_of_sign b"
| "fmul NInf (Fin b) = inf_of_sign (- b)"
| "fmul PInf PInf = PInf"
| "fmul NInf NInf = PInf"
| "fmul PInf NInf = NInf"
| "fmul NInf PInf = NInf"

fun fdiv :: "fl \<Rightarrow> fl \<Rightarrow> fl" where
  "fdiv (Fin a) (Fin b) = (if b = 0 then inf_of_sign a else Fin (a / b))"
| "fdiv NaN _ = NaN"
| "fdiv _ NaN = NaN"
| "fdiv (Fin a) _ = Fin 0"
| "fdiv PInf (Fin b) = (if b < 0 then NInf else PInf)"
| "fdiv NInf (Fin b) = (if b < 0 then PInf else NInf)"
| "fdiv _ _ = NaN"

text \<open>Comparisons with NaN are false, as in IEEE 754 and numpy.\<close>

fun fgt :: "fl \<Rightarrow> fl \<Rightarrow> bool" where
  "fgt (Fin a) (Fin b) = (b < a)"
| "fgt NaN _ = False"
| "fgt _ NaN = False"
| "fgt PInf PInf = False"
| "fgt PInf _ = True"
| "fgt _ PInf = False"
| "fgt NInf _ = False"
| "fgt _ NInf = True"

definition flt :: "fl \<Rightarrow> fl \<Rightarrow> bool" where
  "flt a b = fgt b a"

section \<open>Series operations of pandas and numpy\<close>

type_synonym series = "fl list"

text \<open>
  \<^verbatim>\<open>s.rolling(window=w)\<close> followed by an aggregation: \<^verbatim>\<open>min_periods\<close> defaults to
  the window size, so the value at row \<open>i\<close> is NaN unless the \<open>w\<close> rows ending at \<open>i\<close>
  exist and none of them is NaN.  The program only rolls over finite series; a window
  holding an infinity is given NaN here.
\<close>

definition window_at :: "nat \<Rightarrow> 'a list \<Rightarrow> nat \<Rightarrow> 'a list" where
  "window_at w xs i = take w (drop (i + 1 - w) xs)"

fun fin_vals :: "fl list \<Rightarrow> real list option" where
  "fin_vals [] = Some []"
| "fin_vals (Fin a # xs) = (case fin_vals xs of None \<Rightarrow> None | Some vs \<Rightarrow> Some (a # vs))"
| "fin_vals (_ # xs) = None"

definition rolling :: "nat \<Rightarrow> (real list \<Rightarrow> real) \<Rightarrow> series \<Rightarrow> series" where
  "rolling w agg xs =
     map (\<lambda>i. if i + 1 < w then NaN
              else (case fin_vals (window_at w xs i) of
                      None \<Rightarrow> NaN
                    | Some vs \<Rightarrow> Fin (agg vs)))
         [0..<length xs]"

definition mean :: "real list \<Rightarrow> real" where
  "mean vs = sum_list vs / real (length vs)"

text \<open>
  \<^verbatim>\<open>std()\<close> of a rolling window is the sample standard deviation (\<^verbatim>\<open>ddof=1\<close>), here
  of the exact values.  In float64 the deviation of a window can come out as 0 although
  its values differ (integers above \<open>2\<^sup>5\<^sup>3\<close> that round to one double), which turns
  \<^verbatim>\<open>bb_position\<close> into \<^verbatim>\<open>0/0\<close> there; no statement of a claim relies on a deviation
  being non-zero.
\<close>

definition std :: "real list \<Rightarrow> real" where
  "std vs = sqrt (sum_list (map (\<lambda>v. (v - mean vs)\<^sup>2) vs) / (real (length vs) - 1))"

definition maxL :: "real list \<Rightarrow> real" where
  "maxL vs = Max (set vs)"

definition minL :: "real list \<Rightarrow> real" where
  "minL vs = Min (set vs)"

text \<open>
  \<^verbatim>\<open>s.ewm(span=n).mean()\<close> with the defaults \<^verbatim>\<open>adjust=True\<close>, \<^verbatim>\<open>ignore_na=False\<close>,
  \<^verbatim>\<open>min_periods=0\<close>, as the loop of pandas computes it: \<open>weighted\<close> is the running
  weighted average and \<open>old_wt\<close> the sum of the weights it carries.
\<close>

definition ewm_step :: "real \<Rightarrow> fl \<times> real \<Rightarrow> fl \<Rightarrow> fl \<times> real" where
  "ewm_step \<alpha> st cur =
     (let weighted = fst st; old_wt = snd st in
      if \<not> is_nan weighted then
        (let old_wt' = old_wt * (1 - \<alpha>) in
         if \<not> is_nan cur then
           ((if weighted \<noteq> cur
             then fdiv (fadd (fmul (Fin old_wt') weighted) (fmul (Fin 1) cur)) (Fin (old_wt' + 1))
             else weighted),
            old_wt' + 1)
         else (weighted, old_wt'))
      else if \<not> is_nan cur then (cur, old_wt)
      else (weighted, old_wt))"

fun ewm_loop :: "real \<Rightarrow> fl \<times> real \<Rightarrow> series \<Rightarrow> series" where
  "ewm_loop \<alpha> st [] = []"
| "ewm_loop \<alpha> st (cur # rest) =
     (let st' = ewm_step \<alpha> st cur in fst st' # ewm_loop \<alpha> st' rest)"

definition ewm_mean :: "nat \<Rightarrow> series \<Rightarrow> series" where
  "ewm_mean spn xs =
     (case xs of
        [] \<Rightarrow> []
      | x # rest \<Rightarrow> x # ewm_loop (2 / (real spn + 1)) (x, 1) rest)"

text \<open>\<^verbatim>\<open>s.shift(k)\<close>: rows move down by \<open>k\<close> (up for negative \<open>k\<close>), NaN fills the gap.\<close>

definition shift :: "int \<Rightarrow> series \<Rightarrow> series" where
  "shift k xs =
     (if 0 \<le> k then take (length xs) (replicate (nat k) NaN @ xs)
      else drop (nat (- k)) xs @ replicate (min (nat (- k)) (length xs)) NaN)"

definition diff :: "series \<Rightarrow> series" where
  "diff xs = map2 fsub xs (shift 1 xs)"

text \<open>\<^verbatim>\<open>s.pct_change()\<close> on a series without missing values: \<^verbatim>\<open>s / s.shift(1) - 1\<close>.\<close>

definition pct_change :: "series \<Rightarrow> series" where
  "pct_change xs = map (\<lambda>q. fsub q (Fin 1)) (map2 fdiv xs (shift 1 xs))"

text \<open>\<^verbatim>\<open>s.where(cond, other)\<close> keeps a cell where the condition holds.\<close>

definition where_s :: "(fl \<Rightarrow> bool) \<Rightarrow> fl \<Rightarrow> series \<Rightarrow> series" where
  "where_s cond other xs = map (\<lambda>x. if cond x then x else other) xs"

text \<open>
  \<^verbatim>\<open>np.where(a > b, 1, 0)\<close>: numpy compares the two columns cell by cell, each cell at
  its float64 value, and a comparison with NaN is false.
\<close>

definition np_where_gt :: "series \<Rightarrow> series \<Rightarrow> series" where
  "np_where_gt xs ys = map2 (\<lambda>x y. if fgt x y then Fin 1 else Fin 0) xs ys"

section \<open>The input table\<close>

text \<open>
  The file read by \<^verbatim>\<open>pd.read_csv\<close>: the column names of its header line (the names
  of the frame's columns, which pandas keeps distinct) and one record per data line.
  A record holds the cells of the seven columns the program reads and, in \<open>other\<close>, the cell of any further column by its name; a cell is used only when
  the header names its column.  \<open>Date\<close> is the parsed date, as the number of days since
  1970-01-01.  The cells of the six numeric columns the program reads are finite numbers,
  each the float64 value the column holds (an integer column counts with the float64
  values numpy converts it to); a cell of a further column may be missing (NaN).  Empty
  cells in the seven columns and dates that do not parse are outside the model.
  The cell of the column \<^verbatim>\<open>open\<close> is the field \<open>open_px\<close>, the name \<open>open\<close> being taken
  by the topology of HOL.
\<close>

record row =
  Date :: int
  open_px :: real
  high :: real
  low :: real
  close :: real
  volume :: real
  BuySignal :: real
  other :: "string \<Rightarrow> fl"

record csv =
  header :: "string list"
  rows :: "row list"

datatype error = KeyError string

text \<open>A data frame: the \<^verbatim>\<open>Date\<close> column and the numeric columns, in column order.\<close>

record frame =
  Date_col :: "int list"
  cols :: "(string \<times> series) list"

definition nrows :: "frame \<Rightarrow> nat" where
  "nrows f = length (Date_col f)"

definition column :: "frame \<Rightarrow> string \<Rightarrow> series option" where
  "column f c = map_of (cols f) c"

text \<open>
  \<^verbatim>\<open>df.dropna()\<close>: a row stays when no column is missing there.  Rows are known by
  their position; the index labels of pandas are not written to the output file
  (\<^verbatim>\<open>index=False\<close>) and are not modelled.
\<close>

definition complete_row :: "frame \<Rightarrow> nat \<Rightarrow> bool" where
  "complete_row f i = list_all (\<lambda>(c, s). \<not> is_nan (s ! i)) (cols f)"

definition kept :: "frame \<Rightarrow> nat list" where
  "kept f = filter (complete_row f) [0..<nrows f]"

definition dropna :: "frame \<Rightarrow> frame" where
  "dropna f =
     \<lparr>Date_col = map (nth (Date_col f)) (kept f),
      cols = map (\<lambda>(c, s). (c, map (nth s) (kept f))) (cols f)\<rparr>"

subsection \<open>Base columns\<close>

definition open_col :: "row list \<Rightarrow> series" where
  "open_col df = map (\<lambda>r. Fin (open_px r)) df"

definition high_col :: "row list \<Rightarrow> series" where
  "high_col df = map (\<lambda>r. Fin (high r)) df"

definition low_col :: "row list \<Rightarrow> series" where
  "low_col df = map (\<lambda>r. Fin (low r)) df"

definition close_col :: "row list \<Rightarrow> series" where
  "close_col df = map (\<lambda>r. Fin (close r)) df"

definition volume_col :: "row list \<Rightarrow> series" where
  "volume_col df = map (\<lambda>r. Fin (volume r)) df"

definition BuySignal_col :: "row list \<Rightarrow> series" where
  "BuySignal_col df = map (\<lambda>r. Fin (BuySignal r)) df"

definition base_series :: "string \<Rightarrow> row list \<Rightarrow> series option" where
  "base_series c df =
     (if c = ''open'' then Some (open_col df)
      else if c = ''high'' then Some (high_col df)
      else if c = ''low'' then Some (low_col df)
      else if c = ''close'' then Some (close_col df)
      else if c = ''volume'' then Some (volume_col df)
      else if c = ''BuySignal'' then Some (BuySignal_col df)
      else if c = ''Date'' then None
      else Some (map (\<lambda>r. other r c) df))"

text \<open>
  The numeric columns of the frame \<^verbatim>\<open>pd.read_csv\<close> returns, in the order of the header:
  every column of the file but \<^verbatim>\<open>Date\<close>, which is kept apart.
\<close>

definition base_columns :: "string list \<Rightarrow> row list \<Rightarrow> (string \<times> series) list" where
  "base_columns hdr df =
     concat (map (\<lambda>c. case base_series c df of None \<Rightarrow> [] | Some s \<Rightarrow> [(c, s)]) hdr)"

text \<open>Multiplication of a column by the scalar 100, and \<^verbatim>\<open>str\<close> of a window size.\<close>

definition times100 :: "series \<Rightarrow> series" where
  "times100 xs = map (\<lambda>x. fmul x (Fin 100)) xs"

definition digit :: "nat \<Rightarrow> char" where
  "digit d = ''0123456789'' ! d"

fun str :: "nat \<Rightarrow> string" where
  "str n = (if n < 10 then [digit n] else str (n div 10) @ [digit (n mod 10)])"

declare str.simps [simp del]

section \<open>Feature columns of \<^verbatim>\<open>create_enhanced_stock_data\<close>\<close>

text \<open>
  Each definition is one assignment \<^verbatim>\<open>df[name] = ...\<close> of the source, as a function
  of \<open>df\<close>, the rows in the order \<^verbatim>\<open>sort_values('Date')\<close> has left them.
\<close>

subsection \<open>Basic price features and ratios\<close>

definition price_range :: "row list \<Rightarrow> series" where
  "price_range df = map2 fsub (high_col df) (low_col df)"

definition price_change :: "row list \<Rightarrow> series" where
  "price_change df = map2 fsub (close_col df) (open_col df)"

definition price_change_pct :: "row list \<Rightarrow> series" where
  "price_change_pct df =
     times100 (map2 fdiv (map2 fsub (close_col df) (open_col df)) (open_col df))"

definition close_to_open_ratio :: "row list \<Rightarrow> series" where
  "close_to_open_ratio df = map2 fdiv (close_col df) (open_col df)"

definition high_to_low_ratio :: "row list \<Rightarrow> series" where
  "high_to_low_ratio df = map2 fdiv (high_col df) (low_col df)"

definition close_to_high_ratio :: "row list \<Rightarrow> series" where
  "close_to_high_ratio df = map2 fdiv (close_col df) (high_col df)"

definition close_to_low_ratio :: "row list \<Rightarrow> series" where
  "close_to_low_ratio df = map2 fdiv (close_col df) (low_col df)"

subsection \<open>Moving averages\<close>

definition sma :: "nat \<Rightarrow> row list \<Rightarrow> series" where
  "sma w df = rolling w mean (close_col df)"

definition volume_sma :: "nat \<Rightarrow> row list \<Rightarrow> series" where
  "volume_sma w df = rolling w mean (volume_col df)"

definition close_vs_sma :: "nat \<Rightarrow> row list \<Rightarrow> series" where
  "close_vs_sma w df = map2 fdiv (close_col df) (sma w df)"

definition volume_vs_sma :: "nat \<Rightarrow> row list \<Rightarrow> series" where
  "volume_vs_sma w df = map2 fdiv (volume_col df) (volume_sma w df)"

definition ema :: "nat \<Rightarrow> row list \<Rightarrow> series" where
  "ema w df = ewm_mean w (close_col df)"

subsection \<open>MACD and RSI\<close>

definition macd :: "row list \<Rightarrow> series" where
  "macd df = map2 fsub (ema 12 df) (ema 26 df)"

definition macd_signal :: "row list \<Rightarrow> series" where
  "macd_signal df = ewm_mean 9 (macd df)"

definition macd_histogram :: "row list \<Rightarrow> series" where
  "macd_histogram df = map2 fsub (macd df) (macd_signal df)"

definition rsi_gain :: "series \<Rightarrow> nat \<Rightarrow> series" where
  "rsi_gain s window = rolling window mean (where_s (\<lambda>d. fgt d (Fin 0)) (Fin 0) (diff s))"

definition rsi_loss :: "series \<Rightarrow> nat \<Rightarrow> series" where
  "rsi_loss s window =
     rolling window mean (map fneg (where_s (\<lambda>d. flt d (Fin 0)) (Fin 0) (diff s)))"

definition calculate_rsi :: "series \<Rightarrow> nat \<Rightarrow> series" where
  "calculate_rsi s window =
     (let gain = rsi_gain s window;
          loss = rsi_loss s window;
          rs = map2 fdiv gain loss
      in map (\<lambda>x. fsub (Fin 100) (fdiv (Fin 100) (fadd (Fin 1) x))) rs)"

definition rsi :: "row list \<Rightarrow> series" where
  "rsi df = calculate_rsi (close_col df) 14"

subsection \<open>Bollinger bands, volatility, volume features\<close>

definition bb_middle :: "row list \<Rightarrow> series" where
  "bb_middle df = rolling 20 mean (close_col df)"

definition bb_std :: "row list \<Rightarrow> series" where
  "bb_std df = rolling 20 std (close_col df)"

definition bb_upper :: "row list \<Rightarrow> series" where
  "bb_upper df = map2 fadd (bb_middle df) (map (\<lambda>x. fmul x (Fin 2)) (bb_std df))"

definition bb_lower :: "row list \<Rightarrow> series" where
  "bb_lower df = map2 fsub (bb_middle df) (map (\<lambda>x. fmul x (Fin 2)) (bb_std df))"

definition bb_width :: "row list \<Rightarrow> series" where
  "bb_width df = map2 fsub (bb_upper df) (bb_lower df)"

definition bb_position :: "row list \<Rightarrow> series" where
  "bb_position df =
     map2 fdiv (map2 fsub (close_col df) (bb_lower df)) (map2 fsub (bb_upper df) (bb_lower df))"

definition volatility :: "nat \<Rightarrow> row list \<Rightarrow> series" where
  "volatility w df = rolling w std (close_col df)"

definition price_range_pct :: "row list \<Rightarrow> series" where
  "price_range_pct df =
     times100 (map2 fdiv (map2 fsub (high_col df) (low_col df)) (close_col df))"

definition volume_change :: "row list \<Rightarrow> series" where
  "volume_change df = pct_change (volume_col df)"

definition volume_price_trend :: "row list \<Rightarrow> series" where
  "volume_price_trend df = map2 fmul (volume_col df) (price_change_pct df)"

subsection \<open>Lags, rate of change, support and resistance\<close>

definition close_lag :: "nat \<Rightarrow> row list \<Rightarrow> series" where
  "close_lag lag df = shift (int lag) (close_col df)"

definition volume_lag :: "nat \<Rightarrow> row list \<Rightarrow> series" where
  "volume_lag lag df = shift (int lag) (volume_col df)"

definition price_change_lag :: "nat \<Rightarrow> row list \<Rightarrow> series" where
  "price_change_lag lag df = shift (int lag) (price_change_pct df)"

definition roc :: "nat \<Rightarrow> row list \<Rightarrow> series" where
  "roc period df =
     times100 (map2 fdiv (map2 fsub (close_col df) (shift (int period) (close_col df)))
                         (shift (int period) (close_col df)))"

definition recent_high :: "row list \<Rightarrow> series" where
  "recent_high df = rolling 20 maxL (high_col df)"

definition recent_low :: "row list \<Rightarrow> series" where
  "recent_low df = rolling 20 minL (low_col df)"

definition distance_to_high :: "row list \<Rightarrow> series" where
  "distance_to_high df =
     times100 (map2 fdiv (map2 fsub (recent_high df) (close_col df)) (close_col df))"

definition distance_to_low :: "row list \<Rightarrow> series" where
  "distance_to_low df =
     times100 (map2 fdiv (map2 fsub (close_col df) (recent_low df)) (close_col df))"

subsection \<open>Calendar features\<close>

text \<open>
  The \<^verbatim>\<open>.dt\<close> accessors read the proleptic Gregorian calendar off the day count:
  \<open>civil\<close> gives year, month and day of month; day 0 is a Thursday and Monday is 0.
\<close>

definition civil :: "int \<Rightarrow> int \<times> int \<times> int" where
  "civil d =
     (let z = d + 719468;
          era = z div 146097;
          doe = z - era * 146097;
          yoe = (doe - doe div 1460 + doe div 36524 - doe div 146096) div 365;
          doy = doe - (365 * yoe + yoe div 4 - yoe div 100);
          mp = (5 * doy + 2) div 153;
          dd = doy - (153 * mp + 2) div 5 + 1;
          m = (if mp < 10 then mp + 3 else mp - 9);
          y = yoe + era * 400 + (if m \<le> 2 then 1 else 0)
      in (y, m, dd))"

definition dayofweek :: "int \<Rightarrow> int" where
  "dayofweek d = (d + 3) mod 7"

definition month_of :: "int \<Rightarrow> int" where
  "month_of d = fst (snd (civil d))"

definition quarter_of :: "int \<Rightarrow> int" where
  "quarter_of d = (month_of d - 1) div 3 + 1"

definition year_of :: "int \<Rightarrow> int" where
  "year_of d = fst (civil d)"

definition day_of_week :: "row list \<Rightarrow> series" where
  "day_of_week df = map (\<lambda>r. Fin (of_int (dayofweek (Date r)))) df"

definition month :: "row list \<Rightarrow> series" where
  "month df = map (\<lambda>r. Fin (of_int (month_of (Date r)))) df"

definition quarter :: "row list \<Rightarrow> series" where
  "quarter df = map (\<lambda>r. Fin (of_int (quarter_of (Date r)))) df"

definition year :: "row list \<Rightarrow> series" where
  "year df = map (\<lambda>r. Fin (of_int (year_of (Date r)))) df"

subsection \<open>Trend flags and targets\<close>

definition trend_5 :: "row list \<Rightarrow> series" where
  "trend_5 df = np_where_gt (close_col df) (sma 5 df)"

definition trend_20 :: "row list \<Rightarrow> series" where
  "trend_20 df = np_where_gt (close_col df) (sma 20 df)"

definition golden_cross :: "row list \<Rightarrow> series" where
  "golden_cross df = np_where_gt (sma 5 df) (sma 20 df)"

definition next_day_return :: "row list \<Rightarrow> series" where
  "next_day_return df =
     map (\<lambda>q. fsub q (Fin 1)) (map2 fdiv (shift (- 1) (close_col df)) (close_col df))"

definition buy_signal_strength :: "row list \<Rightarrow> series" where
  "buy_signal_strength df = map2 fmul (BuySignal_col df) (price_change_pct df)"

section \<open>The pipeline\<close>

text \<open>
  The derived columns in the order the source assigns them; the three \<^verbatim>\<open>for\<close> loops
  run over their literal lists and name the columns with f-strings.
\<close>

definition derived_columns :: "row list \<Rightarrow> (string \<times> series) list" where
  "derived_columns df =
     [(''price_range'', price_range df),
      (''price_change'', price_change df),
      (''price_change_pct'', price_change_pct df),
      (''close_to_open_ratio'', close_to_open_ratio df),
      (''high_to_low_ratio'', high_to_low_ratio df),
      (''close_to_high_ratio'', close_to_high_ratio df),
      (''close_to_low_ratio'', close_to_low_ratio df)]
     @ concat (map (\<lambda>window.
         [(''sma_'' @ str window, sma window df),
          (''volume_sma_'' @ str window, volume_sma window df),
          (''close_vs_sma_'' @ str window, close_vs_sma window df),
          (''volume_vs_sma_'' @ str window, volume_vs_sma window df)]) [5, 10, 20, 50])
     @ map (\<lambda>window. (''ema_'' @ str window, ema window df)) [12, 26]
     @ [(''macd'', macd df),
        (''macd_signal'', macd_signal df),
        (''macd_histogram'', macd_histogram df),
        (''rsi'', rsi df),
        (''bb_middle'', bb_middle df),
        (''bb_upper'', bb_upper df),
        (''bb_lower'', bb_lower df),
        (''bb_width'', bb_width df),
        (''bb_position'', bb_position df),
        (''volatility_5'', volatility 5 df),
        (''volatility_20'', volatility 20 df),
        (''price_range_pct'', price_range_pct df),
        (''volume_change'', volume_change df),
        (''volume_price_trend'', volume_price_trend df)]
     @ concat (map (\<lambda>lag.
         [(''close_lag_'' @ str lag, close_lag lag df),
          (''volume_lag_'' @ str lag, volume_lag lag df),
          (''price_change_lag_'' @ str lag, price_change_lag lag df)]) [1, 2, 3, 5])
     @ map (\<lambda>period. (''roc_'' @ str period, roc period df)) [5, 10, 20]
     @ [(''recent_high'', recent_high df),
        (''recent_low'', recent_low df),
        (''distance_to_high'', distance_to_high df),
        (''distance_to_low'', distance_to_low df),
        (''day_of_week'', day_of_week df),
        (''month'', month df),
        (''quarter'', quarter df),
        (''year'', year df),
        (''trend_5'', trend_5 df),
        (''trend_20'', trend_20 df),
        (''golden_cross'', golden_cross df),
        (''next_day_return'', next_day_return df),
        (''buy_signal_strength'', buy_signal_strength df)]"

text \<open>
  \<^verbatim>\<open>df[name] = s\<close>: a column of that name is replaced where it stands, a new name is
  appended.
\<close>

fun assign :: "string \<Rightarrow> series \<Rightarrow> (string \<times> series) list \<Rightarrow> (string \<times> series) list" where
  "assign c s [] = [(c, s)]"
| "assign c s ((k, v) # rest) = (if k = c then (c, s) # rest else (k, v) # assign c s rest)"

definition assign_all ::
  "(string \<times> series) list \<Rightarrow> (string \<times> series) list \<Rightarrow> (string \<times> series) list" where
  "assign_all table new = foldl (\<lambda>t (c, s). assign c s t) table new"

text \<open>
  The table just before \<^verbatim>\<open>dropna\<close>: the columns of the file with the derived columns
  assigned one after the other.  Every derived column is assigned before the source reads
  it, so a column of the file that bears the name of a derived one is never read.
\<close>

definition feature_table :: "string list \<Rightarrow> row list \<Rightarrow> frame" where
  "feature_table hdr df =
     \<lparr>Date_col = map Date df, cols = assign_all (base_columns hdr df) (derived_columns df)\<rparr>"

text \<open>
  \<^verbatim>\<open>df[name]\<close> raises \<^verbatim>\<open>KeyError\<close> when the file has no such column.  The columns of the
  file are listed in the order the source first reads them (lines 13, 19, 20, 33 and 109);
  nothing is written before the last of them is read, so the first missing one decides
  the result.

  \<^verbatim>\<open>sort_values('Date')\<close> uses the default quicksort of numpy, which does not promise
  the order of rows with equal dates; \<open>normalize_rows\<close> takes the stable \<open>sort_key\<close> as
  one of the orders it may produce.  With pairwise distinct dates the sorted order is
  unique (lemma \<open>sorted_rows_unique\<close>), and no statement below depends on which order rows
  of equal date take.
\<close>

definition required_columns :: "string list" where
  "required_columns = [''Date'', ''high'', ''low'', ''close'', ''open'', ''volume'', ''BuySignal'']"

definition normalize_rows :: "row list \<Rightarrow> row list" where
  "normalize_rows rs = sort_key Date rs"

definition create_enhanced_stock_data :: "csv \<Rightarrow> error + frame" where
  "create_enhanced_stock_data inp =
     (case find (\<lambda>c. c \<notin> set (header inp)) required_columns of
        Some c \<Rightarrow> Inl (KeyError c)
      | None \<Rightarrow> Inr (dropna (feature_table (header inp) (normalize_rows (rows inp)))))"

section \<open>Real-valued views used in the statements\<close>

text \<open>
  On a series of finite numbers the loop of \<open>ewm_mean\<close> stays finite; \<open>ewm_real\<close> is
  that loop on reals, with the running average \<open>m\<close> and the weight sum \<open>W\<close>.
\<close>

fun ewm_real :: "real \<Rightarrow> real \<times> real \<Rightarrow> real list \<Rightarrow> real list" where
  "ewm_real \<alpha> (m, W) [] = []"
| "ewm_real \<alpha> (m, W) (v # vs) =
     (let W' = W * (1 - \<alpha>); m' = (W' * m + v) / (W' + 1)
      in m' # ewm_real \<alpha> (m', W' + 1) vs)"

definition ewm_real_mean :: "nat \<Rightarrow> real list \<Rightarrow> real list" where
  "ewm_real_mean spn vs =
     (case vs of [] \<Rightarrow> [] | v # rest \<Rightarrow> v # ewm_real (2 / (real spn + 1)) (v, 1) rest)"

text \<open>
  The recursion the specification gives for the EMA, seeded by the first value:
  \<open>EMA\<^sub>0 = x\<^sub>0\<close>, \<open>EMA\<^sub>i = \<alpha> x\<^sub>i + (1 - \<alpha>) EMA\<^sub>i\<^sub>-\<^sub>1\<close>.
\<close>

fun ema_recursive_from :: "real \<Rightarrow> real \<Rightarrow> real list \<Rightarrow> real list" where
  "ema_recursive_from \<alpha> prev [] = []"
| "ema_recursive_from \<alpha> prev (x # xs) =
     (let e = \<alpha> * x + (1 - \<alpha>) * prev in e # ema_recursive_from \<alpha> e xs)"

definition ema_recursive :: "real \<Rightarrow> real list \<Rightarrow> real list" where
  "ema_recursive \<alpha> xs = (case xs of [] \<Rightarrow> [] | x # rest \<Rightarrow> x # ema_recursive_from \<alpha> x rest)"

text \<open>
  The day-over-day change of a finite series, counted as 0 at row 0 where
  \<^verbatim>\<open>diff\<close> has no value and \<^verbatim>\<open>where\<close> puts 0, and the gain and loss series of the RSI.
\<close>

definition delta_at :: "real list \<Rightarrow> nat \<Rightarrow> real" where
  "delta_at cs j = (if j = 0 then 0 else cs ! j - cs ! (j - 1))"

definition gains :: "real list \<Rightarrow> real list" where
  "gains cs = map (\<lambda>j. max 0 (delta_at cs j)) [0..<length cs]"

definition losses :: "real list \<Rightarrow> real list" where
  "losses cs = map (\<lambda>j. max 0 (- delta_at cs j)) [0..<length cs]"

text \<open>The close changes somewhere in the fourteen differences that end at row \<open>i\<close>.\<close>

definition close_moves :: "row list \<Rightarrow> nat \<Rightarrow> bool" where
  "close_moves df i = (\<exists>j\<in>{i - 13..i}. 0 < j \<and> close (df ! j) \<noteq> close (df ! (j - 1)))"

text \<open>Prices and volumes of every row are positive.\<close>

definition positive_rows :: "row list \<Rightarrow> bool" where
  "positive_rows rs =
     list_all (\<lambda>r. 0 < open_px r \<and> 0 < high r \<and> 0 < low r \<and> 0 < close r \<and> 0 < volume r) rs"

section \<open>Example tables\<close>

text \<open>Rows on consecutive days from day \<open>d\<close> on, every price of a day equal to its close.\<close>

fun rows_of_closes :: "int \<Rightarrow> real list \<Rightarrow> row list" where
  "rows_of_closes d [] = []"
| "rows_of_closes d (c # cs) =
     \<lparr>Date = d, open_px = c, high = c, low = c, close = c, volume = 1, BuySignal = 1,
      other = (\<lambda>name. NaN)\<rparr>
       # rows_of_closes (d + 1) cs"

definition scenario_closes :: "real list" where
  "scenario_closes = [10, 11, 12, 11, 10, 9, 10, 11, 12, 13, 14, 15, 16, 17, 18, 19, 20, 21, 22, 23]"

definition full_header :: "string list" where
  "full_header = [''Date'', ''open'', ''high'', ''low'', ''close'', ''volume'', ''BuySignal'']"

definition two_day_input :: csv where
  "two_day_input = \<lparr>header = full_header, rows = rows_of_closes 0 [10, 11]\<rparr>"

definition two_day_input_swapped :: csv where
  "two_day_input_swapped =
     \<lparr>header = full_header, rows = rows_of_closes 1 [11] @ rows_of_closes 0 [10]\<rparr>"

definition unlabelled_input :: csv where
  "unlabelled_input =
     \<lparr>header = [''Date'', ''open'', ''high'', ''low'', ''close'', ''volume''],
      rows = rows_of_closes 0 [10, 11]\<rparr>"

definition duplicate_date_input :: csv where
  "duplicate_date_input =
     \<lparr>header = full_header, rows = rows_of_closes 0 [10] @ rows_of_closes 0 [11]\<rparr>"

definition rising_closes :: "real list" where
  "rising_closes = [1, 2, 3, 4, 5, 6, 7, 8, 9, 10, 11, 12, 13, 14]"

text \<open>Fifty-one days whose close alternates between 10 and 11.\<close>

definition zigzag_closes :: "nat \<Rightarrow> real list" where
  "zigzag_closes n = map (\<lambda>k. 10 + real (k mod 2)) [0..<n]"

definition long_input :: csv where
  "long_input = \<lparr>header = full_header, rows = rows_of_closes 0 (zigzag_closes 51)\<rparr>"

section \<open>Properties of the series operations\<close>

lemma length_rolling [simp]: "length (rolling w agg xs) = length xs"
  by (simp add: rolling_def)

lemma length_shift [simp]: "length (shift k xs) = length xs"
  by (auto simp: shift_def)

lemma length_ewm_loop [simp]: "length (ewm_loop a st xs) = length xs"
  by (induction xs arbitrary: st) (simp_all add: Let_def)

lemma length_ewm_mean [simp]: "length (ewm_mean s xs) = length xs"
  by (simp add: ewm_mean_def split: list.splits)

lemma fin_vals_map_Fin [simp]: "fin_vals (map Fin vs) = Some vs"
  by (induction vs) simp_all

lemma window_at_map: "window_at w (map f xs) i = map f (window_at w xs i)"
  by (simp add: window_at_def take_map drop_map)

lemma length_window_at: "i < length xs \<Longrightarrow> w \<le> i + 1 \<Longrightarrow> length (window_at w xs i) = w"
  by (simp add: window_at_def)

lemma rolling_nth:
  "i < length xs \<Longrightarrow>
   rolling w agg xs ! i =
     (if i + 1 < w then NaN
      else (case fin_vals (window_at w xs i) of None \<Rightarrow> NaN | Some vs \<Rightarrow> Fin (agg vs)))"
  by (simp add: rolling_def)

lemma rolling_Fin_nth:
  "i < length vs \<Longrightarrow>
   rolling w agg (map Fin vs) ! i = (if i + 1 < w then NaN else Fin (agg (window_at w vs i)))"
  by (simp add: rolling_nth window_at_map)

lemma shift_nth_nat:
  "i < length xs \<Longrightarrow> shift (int k) xs ! i = (if i < k then NaN else xs ! (i - k))"
  by (simp add: shift_def nth_append)

lemma shift_nth_back:
  "i < length xs \<Longrightarrow> shift (- 1) xs ! i = (if i + 1 < length xs then xs ! (i + 1) else NaN)"
  by (auto simp: shift_def nth_append)

lemma sum_list_window:
  fixes xs :: "real list"
  assumes "k + w \<le> length xs"
  shows "sum_list (take w (drop k xs)) = (\<Sum>j = k..<k + w. xs ! j)"
proof -
  have "sum_list (take w (drop k xs)) = (\<Sum>j = 0..<w. take w (drop k xs) ! j)"
    using assms by (simp add: sum_list_sum_nth)
  also have "\<dots> = (\<Sum>j = 0..<w. xs ! (k + j))"
    using assms by (intro sum.cong) simp_all
  also have "\<dots> = (\<Sum>j = k..<k + w. xs ! j)"
    using sum.shift_bounds_nat_ivl [of "\<lambda>j. xs ! j" 0 k w] by (simp add: add.commute)
  finally show ?thesis .
qed

lemma mean_window_at:
  fixes xs :: "real list"
  assumes "i < length xs" "w \<le> i + 1" "0 < w"
  shows "mean (window_at w xs i) = (\<Sum>j = i + 1 - w..i. xs ! j) / real w"
proof -
  have "{i + 1 - w..<i + 1 - w + w} = {i + 1 - w..i}"
    using assms by auto
  then show ?thesis
    using assms sum_list_window [of "i + 1 - w" w xs]
    by (simp add: mean_def window_at_def)
qed

section \<open>Columns of the table\<close>

lemma close_col_Fin: "close_col df = map Fin (map close df)"
  by (simp add: close_col_def)

lemma length_base_cols [simp]:
  "length (open_col df) = length df" "length (high_col df) = length df"
  "length (low_col df) = length df" "length (close_col df) = length df"
  "length (volume_col df) = length df" "length (BuySignal_col df) = length df"
  by (simp_all add: open_col_def high_col_def low_col_def close_col_def volume_col_def
      BuySignal_col_def)

lemma length_sma [simp]: "length (sma w df) = length df"
  by (simp add: sma_def)

lemma map_of_base_columns:
  "c \<in> set hdr \<Longrightarrow> base_series c df = Some s \<Longrightarrow> map_of (base_columns hdr df) c = Some s"
  by (induction hdr) (auto simp: base_columns_def split: option.splits)

lemma str_values:
  "str 1 = ''1''" "str 2 = ''2''" "str 3 = ''3''" "str 5 = ''5''" "str 10 = ''10''"
  "str 12 = ''12''" "str 20 = ''20''" "str 26 = ''26''" "str 50 = ''50''"
  "str (Suc 0) = ''1''"
  by (simp_all add: str.simps digit_def)

lemma map_of_assign: "map_of (assign c s t) = (map_of t)(c \<mapsto> s)"
  by (induction c s t rule: assign.induct) (auto simp: fun_eq_iff)

lemma set_assign: "set (assign c s t) \<subseteq> insert (c, s) (set t)"
  by (induction c s t rule: assign.induct) auto

lemma map_of_assign_all:
  assumes "distinct (map fst new)"
  shows "map_of (assign_all t new) k =
     (case map_of new k of Some v \<Rightarrow> Some v | None \<Rightarrow> map_of t k)"
  using assms unfolding assign_all_def
proof (induction new arbitrary: t)
  case Nil
  then show ?case by simp
next
  case (Cons p new)
  obtain c s where p: "p = (c, s)" by (cases p)
  have "map_of new c = None"
    using Cons.prems p by (simp add: map_of_eq_None_iff)
  then show ?case
    using Cons.prems Cons.IH [of "assign c s t"] p
    by (auto simp: map_of_assign split: option.splits)
qed

lemma set_assign_all: "set (assign_all t new) \<subseteq> set t \<union> set new"
  unfolding assign_all_def
proof (induction new arbitrary: t)
  case Nil
  then show ?case by simp
next
  case (Cons p new)
  obtain c s where p: "p = (c, s)" by (cases p)
  show ?case
    using Cons.IH [of "assign c s t"] set_assign [of c s t] p by auto
qed

lemma derived_names_distinct: "distinct (map fst (derived_columns df))"
  by (simp add: derived_columns_def str_values)

lemma column_derived:
  "map_of (derived_columns df) c = Some s \<Longrightarrow> column (feature_table hdr df) c = Some s"
  by (simp add: column_def feature_table_def map_of_assign_all derived_names_distinct)

lemma column_file:
  "map_of (derived_columns df) c = None \<Longrightarrow>
   column (feature_table hdr df) c = map_of (base_columns hdr df) c"
  by (simp add: column_def feature_table_def map_of_assign_all derived_names_distinct)

lemma cols_feature_table:
  "set (cols (feature_table hdr df)) \<subseteq> set (base_columns hdr df) \<union> set (derived_columns df)"
  by (simp add: feature_table_def set_assign_all)

lemma map_close_rows_of_closes [simp]: "map close (rows_of_closes d cs) = cs"
  by (induction cs arbitrary: d) simp_all

lemma length_rows_of_closes [simp]: "length (rows_of_closes d cs) = length cs"
  by (induction cs arbitrary: d) simp_all

section \<open>Simple moving averages\<close>

lemma sma_window:
  assumes "i < length df"
  shows "sma w df ! i = (if i + 1 < w then NaN else Fin (mean (window_at w (map close df) i)))"
  unfolding sma_def close_col_Fin using assms by (subst rolling_Fin_nth) simp_all

lemma sma_nth:
  assumes "i < length df" "0 < w"
  shows "sma w df ! i =
     (if i + 1 < w then NaN else Fin ((\<Sum>j = i + 1 - w..i. close (df ! j)) / real w))"
proof -
  have "\<And>j. j \<in> {i + 1 - w..i} \<Longrightarrow> map close df ! j = close (df ! j)"
    using assms by simp
  then have "(\<Sum>j = i + 1 - w..i. map close df ! j) = (\<Sum>j = i + 1 - w..i. close (df ! j))"
    by (intro sum.cong) simp_all
  then show ?thesis
    using assms by (simp add: sma_window mean_window_at)
qed

lemma column_sma:
  "w \<in> {5, 10, 20, 50} \<Longrightarrow> column (feature_table hdr df) (''sma_'' @ str w) = Some (sma w df)"
  by (intro column_derived) (auto simp add: derived_columns_def str_values)

lemma np_where_gt_nth:
  "i < length xs \<Longrightarrow> i < length ys \<Longrightarrow>
   np_where_gt xs ys ! i = (if fgt (xs ! i) (ys ! i) then Fin 1 else Fin 0)"
  by (simp add: np_where_gt_def)

lemma scenario_sma_5:
  assumes "map close df = scenario_closes"
  shows "sma 5 df ! 19 = Fin 21"
proof -
  have "length (map close df) = 20"
    unfolding assms by (simp add: scenario_closes_def)
  then have "19 < length df" by simp
  then show ?thesis
    by (simp add: sma_window assms scenario_closes_def window_at_def mean_def)
qed

lemma scenario_trend_5:
  assumes "map close df = scenario_closes"
  shows "trend_5 df ! 19 = Fin 1"
proof -
  have l: "length (map close df) = 20"
    unfolding assms by (simp add: scenario_closes_def)
  have "map close df ! 19 = 23"
    unfolding assms by (simp add: scenario_closes_def)
  then have "close_col df ! 19 = Fin 23"
    using l by (simp add: close_col_def)
  then show ?thesis
    using l scenario_sma_5 [OF assms] by (simp add: trend_5_def np_where_gt_nth)
qed

text \<open>
  C7.  In the table before pruning, the column \<^verbatim>\<open>sma_w\<close> for a window \<open>w\<close> of 5, 10, 20
  or 50 holds at row \<open>i\<close> the arithmetic mean of \<open>close\<close> over the rows \<open>i-w+1..i\<close>, and no
  value for \<open>i < w-1\<close>.  On twenty rows whose closes are those of the scenario, \<^verbatim>\<open>sma_5\<close>
  is 21 and \<^verbatim>\<open>trend_5\<close> is 1 at row 19.
\<close>

theorem sma_is_trailing_mean:
  "(w \<in> {5, 10, 20, 50} \<longrightarrow>
      column (feature_table hdr df) (''sma_'' @ str w) = Some (sma w df)) \<and>
   (w \<in> {5, 10, 20, 50} \<and> i < length df \<longrightarrow>
      sma w df ! i =
        (if i + 1 < w then NaN else Fin ((\<Sum>j = i + 1 - w..i. close (df ! j)) / real w))) \<and>
   (map close df = scenario_closes \<longrightarrow> sma 5 df ! 19 = Fin 21 \<and> trend_5 df ! 19 = Fin 1)"
proof (intro conjI impI)
  assume "w \<in> {5, 10, 20, 50}"
  then show "column (feature_table hdr df) (''sma_'' @ str w) = Some (sma w df)"
    by (rule column_sma)
next
  assume "w \<in> {5, 10, 20, 50} \<and> i < length df"
  then have "0 < w" "i < length df" by auto
  then show "sma w df ! i =
      (if i + 1 < w then NaN else Fin ((\<Sum>j = i + 1 - w..i. close (df ! j)) / real w))"
    by (simp add: sma_nth)
next
  assume "map close df = scenario_closes"
  then show "sma 5 df ! 19 = Fin 21" by (rule scenario_sma_5)
next
  assume "map close df = scenario_closes"
  then show "trend_5 df ! 19 = Fin 1" by (rule scenario_trend_5)
qed

theorem sma_is_trailing_mean_witness:
  "(5::nat) \<in> {5, 10, 20, 50} \<and> 3 < length (rows_of_closes 0 scenario_closes) \<and>
   map close (rows_of_closes 0 scenario_closes) = scenario_closes \<and>
   column (feature_table [''Date'', ''close''] (rows_of_closes 0 scenario_closes)) ''sma_5''
     = Some (sma 5 (rows_of_closes 0 scenario_closes)) \<and>
   sma 5 (rows_of_closes 0 scenario_closes) ! 3 = NaN \<and>
   sma 5 (rows_of_closes 0 scenario_closes) ! 19 = Fin 21 \<and>
   trend_5 (rows_of_closes 0 scenario_closes) ! 19 = Fin 1"
proof -
  have l: "3 < length (rows_of_closes 0 scenario_closes)"
    by (simp add: scenario_closes_def)
  show ?thesis
    using l sma_is_trailing_mean [of 5 "[''Date'', ''close'']" "rows_of_closes 0 scenario_closes" 3]
    by (simp add: str_values)
qed

lemma is_nan_iff: "is_nan x \<longleftrightarrow> x = NaN"
  by (cases x) simp_all

lemma f_NaN_right [simp]:
  "fgt x NaN = False" "fadd x NaN = NaN" "fmul x NaN = NaN" "fdiv x NaN = NaN"
  "fsub x NaN = NaN" "fsub NaN x = NaN"
  by (cases x; simp add: fsub_def)+

lemma length_times100 [simp]: "length (times100 xs) = length xs"
  by (simp add: times100_def)

lemma length_np_where_gt [simp]: "length (np_where_gt xs ys) = min (length xs) (length ys)"
  by (simp add: np_where_gt_def)

lemma length_price_change_pct [simp]: "length (price_change_pct df) = length df"
  by (simp add: price_change_pct_def)

lemma length_buy_signal_strength [simp]: "length (buy_signal_strength df) = length df"
  by (simp add: buy_signal_strength_def)

lemma close_col_nth: "i < length df \<Longrightarrow> close_col df ! i = Fin (close (df ! i))"
  by (simp add: close_col_def)

lemma column_trends:
  "column (feature_table hdr df) ''trend_5'' = Some (trend_5 df)"
  "column (feature_table hdr df) ''trend_20'' = Some (trend_20 df)"
  "column (feature_table hdr df) ''golden_cross'' = Some (golden_cross df)"
  by (rule column_derived, simp add: derived_columns_def str_values)+

section \<open>Trend flags\<close>

text \<open>
  C5 (amended).  \<^verbatim>\<open>np.where(a > b, 1, 0)\<close> yields 0 wherever the comparison is false, and
  a comparison with a missing cell is false.  So the flags are never missing: at every
  row \<^verbatim>\<open>trend_5\<close> is 1 when the cell of \<^verbatim>\<open>sma_5\<close> holds a value and the cell of \<open>close\<close>
  exceeds it, and 0 otherwise, in particular 0 at the rows \<open>i < 4\<close> where \<^verbatim>\<open>sma_5\<close> is
  missing; \<^verbatim>\<open>trend_20\<close> likewise with \<^verbatim>\<open>sma_20\<close> and \<open>i < 19\<close>; \<^verbatim>\<open>golden_cross\<close> is 1
  when both cells hold values and that of \<^verbatim>\<open>sma_5\<close> exceeds that of \<^verbatim>\<open>sma_20\<close>, and 0
  otherwise.  The flags are stated against the cells of the columns compared, whatever
  values these hold.
\<close>

theorem trend_flags_default_to_zero:
  "column (feature_table hdr df) ''trend_5'' = Some (trend_5 df) \<and>
   column (feature_table hdr df) ''trend_20'' = Some (trend_20 df) \<and>
   column (feature_table hdr df) ''golden_cross'' = Some (golden_cross df) \<and>
   (i < length df \<longrightarrow>
     trend_5 df ! i = (if fgt (close_col df ! i) (sma 5 df ! i) then Fin 1 else Fin 0) \<and>
     trend_20 df ! i = (if fgt (close_col df ! i) (sma 20 df ! i) then Fin 1 else Fin 0) \<and>
     golden_cross df ! i = (if fgt (sma 5 df ! i) (sma 20 df ! i) then Fin 1 else Fin 0) \<and>
     (i < 4 \<longrightarrow> is_nan (sma 5 df ! i)) \<and>
     (i < 19 \<longrightarrow> is_nan (sma 20 df ! i)) \<and>
     (is_nan (sma 5 df ! i) \<longrightarrow> trend_5 df ! i = Fin 0 \<and> golden_cross df ! i = Fin 0) \<and>
     (is_nan (sma 20 df ! i) \<longrightarrow> trend_20 df ! i = Fin 0 \<and> golden_cross df ! i = Fin 0) \<and>
     (\<forall>c m. close_col df ! i = Fin c \<and> sma 5 df ! i = Fin m \<longrightarrow>
        trend_5 df ! i = (if m < c then Fin 1 else Fin 0)) \<and>
     (\<forall>c m. close_col df ! i = Fin c \<and> sma 20 df ! i = Fin m \<longrightarrow>
        trend_20 df ! i = (if m < c then Fin 1 else Fin 0)) \<and>
     (\<forall>a b. sma 5 df ! i = Fin a \<and> sma 20 df ! i = Fin b \<longrightarrow>
        golden_cross df ! i = (if b < a then Fin 1 else Fin 0)) \<and>
     \<not> is_nan (trend_5 df ! i) \<and> \<not> is_nan (trend_20 df ! i) \<and>
     \<not> is_nan (golden_cross df ! i))"
proof -
  have body:
    "trend_5 df ! i = (if fgt (close_col df ! i) (sma 5 df ! i) then Fin 1 else Fin 0) \<and>
     trend_20 df ! i = (if fgt (close_col df ! i) (sma 20 df ! i) then Fin 1 else Fin 0) \<and>
     golden_cross df ! i = (if fgt (sma 5 df ! i) (sma 20 df ! i) then Fin 1 else Fin 0) \<and>
     (i < 4 \<longrightarrow> is_nan (sma 5 df ! i)) \<and>
     (i < 19 \<longrightarrow> is_nan (sma 20 df ! i)) \<and>
     (is_nan (sma 5 df ! i) \<longrightarrow> trend_5 df ! i = Fin 0 \<and> golden_cross df ! i = Fin 0) \<and>
     (is_nan (sma 20 df ! i) \<longrightarrow> trend_20 df ! i = Fin 0 \<and> golden_cross df ! i = Fin 0) \<and>
     (\<forall>c m. close_col df ! i = Fin c \<and> sma 5 df ! i = Fin m \<longrightarrow>
        trend_5 df ! i = (if m < c then Fin 1 else Fin 0)) \<and>
     (\<forall>c m. close_col df ! i = Fin c \<and> sma 20 df ! i = Fin m \<longrightarrow>
        trend_20 df ! i = (if m < c then Fin 1 else Fin 0)) \<and>
     (\<forall>a b. sma 5 df ! i = Fin a \<and> sma 20 df ! i = Fin b \<longrightarrow>
        golden_cross df ! i = (if b < a then Fin 1 else Fin 0)) \<and>
     \<not> is_nan (trend_5 df ! i) \<and> \<not> is_nan (trend_20 df ! i) \<and>
     \<not> is_nan (golden_cross df ! i)"
    if i: "i < length df"
  proof -
    have t5: "trend_5 df ! i = (if fgt (close_col df ! i) (sma 5 df ! i) then Fin 1 else Fin 0)"
      using i by (simp add: trend_5_def np_where_gt_nth)
    have t20: "trend_20 df ! i = (if fgt (close_col df ! i) (sma 20 df ! i) then Fin 1 else Fin 0)"
      using i by (simp add: trend_20_def np_where_gt_nth)
    have gc: "golden_cross df ! i = (if fgt (sma 5 df ! i) (sma 20 df ! i) then Fin 1 else Fin 0)"
      using i by (simp add: golden_cross_def np_where_gt_nth)
    have n5: "i < 4 \<longrightarrow> sma 5 df ! i = NaN"
      using i by (simp add: sma_window)
    have n20: "i < 19 \<longrightarrow> sma 20 df ! i = NaN"
      using i by (simp add: sma_window)
    show ?thesis
      unfolding t5 t20 gc using n5 n20 by (auto simp: is_nan_iff)
  qed
  show ?thesis
    apply (intro conjI)
       apply (rule column_trends)+
    apply (rule impI)
    apply (erule body)
    done
qed

theorem trend_flags_default_to_zero_witness:
  "0 < length (rows_of_closes 0 [10]) \<and>
   trend_5 (rows_of_closes 0 [10]) ! 0 = Fin 0 \<and>
   trend_20 (rows_of_closes 0 [10]) ! 0 = Fin 0 \<and>
   golden_cross (rows_of_closes 0 [10]) ! 0 = Fin 0"
proof -
  have l: "0 < length (rows_of_closes 0 [10])"
    by simp
  note t = trend_flags_default_to_zero [of "[]" "rows_of_closes 0 [10]" 0,
      THEN conjunct2, THEN conjunct2, THEN conjunct2, THEN mp, OF l]
  from t have n: "is_nan (sma 5 (rows_of_closes 0 [10]) ! 0)"
      "is_nan (sma 20 (rows_of_closes 0 [10]) ! 0)"
    by simp_all
  from t n have "trend_5 (rows_of_closes 0 [10]) ! 0 = Fin 0"
      "trend_20 (rows_of_closes 0 [10]) ! 0 = Fin 0"
      "golden_cross (rows_of_closes 0 [10]) ! 0 = Fin 0"
    by blast+
  with l show ?thesis
    by (intro conjI)
qed

text \<open>
  The claim as stated fails on a table of one row: SMA(5) and SMA(20) are missing at
  row 0, and the three flags are 0 there, not missing.
\<close>

theorem trend_flags_counterexample:
  "is_nan (sma 5 (rows_of_closes 0 [10]) ! 0) \<and>
   is_nan (sma 20 (rows_of_closes 0 [10]) ! 0) \<and>
   \<not> is_nan (trend_5 (rows_of_closes 0 [10]) ! 0) \<and>
   \<not> is_nan (trend_20 (rows_of_closes 0 [10]) ! 0) \<and>
   \<not> is_nan (golden_cross (rows_of_closes 0 [10]) ! 0)"
  by (simp add: sma_window trend_5_def trend_20_def golden_cross_def np_where_gt_nth)

section \<open>Pruning\<close>

lemma nrows_feature_table [simp]: "nrows (feature_table hdr df) = length df"
  by (simp add: nrows_def feature_table_def)

lemma nrows_dropna [simp]: "nrows (dropna f) = length (kept f)"
  by (simp add: nrows_def dropna_def)

lemma kept_less: "k \<in> set (kept f) \<Longrightarrow> k < nrows f"
  by (simp add: kept_def)

lemma kept_complete: "k \<in> set (kept f) \<Longrightarrow> complete_row f k"
  by (simp add: kept_def)

lemma column_dropna:
  "column (dropna f) c = map_option (\<lambda>s. map (nth s) (kept f)) (column f c)"
  by (simp add: column_def dropna_def map_of_map)

lemma complete_rowD:
  "complete_row f k \<Longrightarrow> (c, s) \<in> set (cols f) \<Longrightarrow> \<not> is_nan (s ! k)"
  by (auto simp: complete_row_def list_all_iff)

lemma dropna_cells:
  assumes "(c, s) \<in> set (cols (dropna f))"
  shows "length s = nrows (dropna f) \<and> (\<forall>i<nrows (dropna f). \<not> is_nan (s ! i))"
proof -
  from assms obtain s0 where s0: "(c, s0) \<in> set (cols f)" and s: "s = map (nth s0) (kept f)"
    by (auto simp: dropna_def)
  have "\<not> is_nan (s ! i)" if "i < length (kept f)" for i
  proof -
    have "kept f ! i \<in> set (kept f)" using that by simp
    then have "\<not> is_nan (s0 ! (kept f ! i))"
      using s0 kept_complete complete_rowD by blast
    then show ?thesis using that s by simp
  qed
  then show ?thesis using s by simp
qed

section \<open>The result of the pipeline\<close>

lemma create_Inr_iff:
  "create_enhanced_stock_data inp = Inr out \<longleftrightarrow>
   set required_columns \<subseteq> set (header inp) \<and>
   out = dropna (feature_table (header inp) (normalize_rows (rows inp)))"
proof (cases "find (\<lambda>c. c \<notin> set (header inp)) required_columns")
  case None
  then have "set required_columns \<subseteq> set (header inp)"
    by (auto simp: find_None_iff)
  with None show ?thesis
    by (auto simp: create_enhanced_stock_data_def)
next
  case (Some c)
  then have "c \<in> set required_columns" "c \<notin> set (header inp)"
    by (auto simp: find_Some_iff)
  with Some show ?thesis
    by (auto simp: create_enhanced_stock_data_def)
qed

lemma create_missing:
  assumes "c \<in> set required_columns" "c \<notin> set (header inp)"
  shows "\<exists>c'. create_enhanced_stock_data inp = Inl (KeyError c')"
proof (cases "find (\<lambda>c. c \<notin> set (header inp)) required_columns")
  case None
  with assms show ?thesis by (auto simp: find_None_iff)
next
  case (Some c')
  then show ?thesis by (auto simp: create_enhanced_stock_data_def)
qed

lemma create_missing_label:
  assumes "''BuySignal'' \<notin> set (header inp)"
    and "set [''Date'', ''high'', ''low'', ''close'', ''open'', ''volume''] \<subseteq> set (header inp)"
  shows "create_enhanced_stock_data inp = Inl (KeyError ''BuySignal'')"
  using assms by (simp add: create_enhanced_stock_data_def required_columns_def)

section \<open>The buy-signal label\<close>

lemma column_label:
  assumes "''BuySignal'' \<in> set hdr"
  shows "column (feature_table hdr df) ''BuySignal'' = Some (BuySignal_col df)"
  using assms
  by (simp add: column_file derived_columns_def str_values map_of_base_columns base_series_def)

lemma column_targets:
  "column (feature_table hdr df) ''price_change_pct'' = Some (price_change_pct df)"
  "column (feature_table hdr df) ''next_day_return'' = Some (next_day_return df)"
  "column (feature_table hdr df) ''buy_signal_strength'' = Some (buy_signal_strength df)"
  by (rule column_derived, simp add: derived_columns_def str_values)+

lemma buy_signal_strength_nth:
  "i < length df \<Longrightarrow>
   buy_signal_strength df ! i = fmul (BuySignal_col df ! i) (price_change_pct df ! i)"
  by (simp add: buy_signal_strength_def)

lemma buy_signal_strength_pruned:
  assumes "create_enhanced_stock_data inp = Inr out"
  shows "\<exists>b p s. column out ''BuySignal'' = Some b \<and>
           column out ''price_change_pct'' = Some p \<and>
           column out ''buy_signal_strength'' = Some s \<and>
           length s = nrows out \<and>
           (\<forall>i<nrows out. s ! i = fmul (b ! i) (p ! i))"
proof -
  define df where "df = normalize_rows (rows inp)"
  define T where "T = feature_table (header inp) df"
  from assms have hdr: "''BuySignal'' \<in> set (header inp)" and out: "out = dropna T"
    by (auto simp: create_Inr_iff required_columns_def T_def df_def)
  let ?b = "map (nth (BuySignal_col df)) (kept T)"
  let ?p = "map (nth (price_change_pct df)) (kept T)"
  let ?s = "map (nth (buy_signal_strength df)) (kept T)"
  have "?s ! i = fmul (?b ! i) (?p ! i)" if "i < length (kept T)" for i
  proof -
    have "kept T ! i < length df"
      using kept_less [of "kept T ! i" T] that by (simp add: T_def)
    then show ?thesis
      using that by (simp add: buy_signal_strength_nth)
  qed
  then have "column out ''BuySignal'' = Some ?b \<and>
      column out ''price_change_pct'' = Some ?p \<and>
      column out ''buy_signal_strength'' = Some ?s \<and>
      length ?s = nrows out \<and> (\<forall>i<nrows out. ?s ! i = fmul (?b ! i) (?p ! i))"
    using hdr by (simp add: out column_dropna T_def column_label column_targets)
  then show ?thesis by blast
qed

text \<open>
  C9.  A file without the column \<^verbatim>\<open>BuySignal\<close> makes the pipeline fail with the
  \<^verbatim>\<open>KeyError\<close> of a missing column (the schema error of the specification), which names
  \<^verbatim>\<open>BuySignal\<close> when the other columns are there; no table is returned.  When the
  pipeline returns a table, \<^verbatim>\<open>buy_signal_strength\<close> is \<^verbatim>\<open>BuySignal\<close> times
  \<^verbatim>\<open>price_change_pct\<close> at every row, before pruning and after.
\<close>

theorem buy_signal_strength_requires_label:
  "(''BuySignal'' \<notin> set (header inp) \<longrightarrow>
      (\<exists>c. create_enhanced_stock_data inp = Inl (KeyError c))) \<and>
   (''BuySignal'' \<notin> set (header inp) \<and>
    set [''Date'', ''high'', ''low'', ''close'', ''open'', ''volume''] \<subseteq> set (header inp) \<longrightarrow>
      create_enhanced_stock_data inp = Inl (KeyError ''BuySignal'')) \<and>
   (i < length df \<longrightarrow>
      buy_signal_strength df ! i = fmul (Fin (BuySignal (df ! i))) (price_change_pct df ! i)) \<and>
   (create_enhanced_stock_data inp = Inr out \<longrightarrow>
      (\<exists>b p s. column out ''BuySignal'' = Some b \<and>
         column out ''price_change_pct'' = Some p \<and>
         column out ''buy_signal_strength'' = Some s \<and>
         length s = nrows out \<and>
         (\<forall>i<nrows out. s ! i = fmul (b ! i) (p ! i))))"
proof (intro conjI impI)
  assume "''BuySignal'' \<notin> set (header inp)"
  then show "\<exists>c. create_enhanced_stock_data inp = Inl (KeyError c)"
    by (intro create_missing [of "''BuySignal''"]) (simp_all add: required_columns_def)
next
  assume "''BuySignal'' \<notin> set (header inp) \<and>
    set [''Date'', ''high'', ''low'', ''close'', ''open'', ''volume''] \<subseteq> set (header inp)"
  then show "create_enhanced_stock_data inp = Inl (KeyError ''BuySignal'')"
    by (intro create_missing_label) simp_all
next
  assume "i < length df"
  then show "buy_signal_strength df ! i =
      fmul (Fin (BuySignal (df ! i))) (price_change_pct df ! i)"
    by (simp add: buy_signal_strength_nth BuySignal_col_def)
next
  assume "create_enhanced_stock_data inp = Inr out"
  then show "\<exists>b p s. column out ''BuySignal'' = Some b \<and>
         column out ''price_change_pct'' = Some p \<and>
         column out ''buy_signal_strength'' = Some s \<and>
         length s = nrows out \<and>
         (\<forall>i<nrows out. s ! i = fmul (b ! i) (p ! i))"
    by (rule buy_signal_strength_pruned)
qed

lemma create_two_day_input:
  "create_enhanced_stock_data two_day_input =
     Inr (dropna (feature_table full_header (normalize_rows (rows two_day_input))))"
  by (simp add: create_Inr_iff two_day_input_def full_header_def required_columns_def)

theorem buy_signal_strength_requires_label_witness:
  "''BuySignal'' \<notin> set (header unlabelled_input) \<and>
   set [''Date'', ''high'', ''low'', ''close'', ''open'', ''volume'']
     \<subseteq> set (header unlabelled_input) \<and>
   create_enhanced_stock_data unlabelled_input = Inl (KeyError ''BuySignal'') \<and>
   (0::nat) < length (rows_of_closes 0 [10, 11]) \<and>
   buy_signal_strength (rows_of_closes 0 [10, 11]) ! 0 = Fin 0 \<and>
   create_enhanced_stock_data two_day_input =
     Inr (dropna (feature_table full_header (normalize_rows (rows two_day_input)))) \<and>
   (\<exists>s. column (dropna (feature_table full_header (normalize_rows (rows two_day_input))))
          ''buy_signal_strength'' = Some s)"
proof -
  have a: "''BuySignal'' \<notin> set (header unlabelled_input) \<and>
      set [''Date'', ''high'', ''low'', ''close'', ''open'', ''volume'']
        \<subseteq> set (header unlabelled_input)"
    by (simp add: unlabelled_input_def)
  have b: "price_change_pct (rows_of_closes 0 [10, 11]) ! 0 = Fin 0"
    by (simp add: price_change_pct_def times100_def close_col_def open_col_def fsub_def)
  from a have "create_enhanced_stock_data unlabelled_input = Inl (KeyError ''BuySignal'')"
    using buy_signal_strength_requires_label [of unlabelled_input] by blast
  moreover have "buy_signal_strength (rows_of_closes 0 [10, 11]) ! 0 = Fin 0"
    using buy_signal_strength_requires_label [of _ 0 "rows_of_closes 0 [10, 11]"] b by simp
  moreover have "\<exists>s. column (dropna (feature_table full_header (normalize_rows (rows two_day_input))))
          ''buy_signal_strength'' = Some s"
    using buy_signal_strength_requires_label [of two_day_input] create_two_day_input by blast
  ultimately show ?thesis
    using a create_two_day_input by simp
qed

section \<open>Normalization\<close>

lemma filter_key_singleton:
  "distinct (map f zs) \<Longrightarrow> k \<in> set zs \<Longrightarrow> filter (\<lambda>x. f k = f x) zs = [k]"
proof (induction zs)
  case Nil
  then show ?case by simp
next
  case (Cons z zs)
  show ?case
  proof (cases "k = z")
    case True
    have "filter (\<lambda>x. f z = f x) zs = []"
      using Cons.prems(1) by (auto simp: filter_empty_conv)
    with True show ?thesis by simp
  next
    case False
    with Cons.prems have ks: "k \<in> set zs" by auto
    then have "f k \<in> f ` set zs" by simp
    with Cons.prems(1) have "f k \<noteq> f z" by auto
    with Cons ks show ?thesis by simp
  qed
qed

lemma sort_key_unique:
  assumes "mset xs = mset ys" "distinct (map f xs)"
  shows "sort_key f xs = sort_key f ys"
proof (rule properties_for_sort_key)
  show "mset (sort_key f ys) = mset xs"
    using assms by simp
  show "sorted (map f (sort_key f ys))"
    by simp
  fix k
  assume k: "k \<in> set (sort_key f ys)"
  have "mset (map f (sort_key f ys)) = mset (map f xs)"
    using assms by simp
  then have d: "distinct (map f (sort_key f ys))"
    using assms(2) mset_eq_imp_distinct_iff by blast
  have "k \<in> set xs"
    using k assms(1) mset_eq_setD by fastforce
  then show "filter (\<lambda>x. f k = f x) (sort_key f ys) = filter (\<lambda>x. f k = f x) xs"
    using filter_key_singleton [OF d k] filter_key_singleton [OF assms(2)] by simp
qed

lemma sorted_rows_unique:
  assumes "mset df = mset rs" "sorted (map Date df)" "distinct (map Date rs)"
  shows "df = normalize_rows rs"
proof -
  have "sort_key Date rs = sort_key Date df"
    using assms(1,3) by (intro sort_key_unique) simp_all
  also have "\<dots> = df"
    using assms(2) by (rule sort_key_id_if_sorted)
  finally show ?thesis
    by (simp add: normalize_rows_def)
qed

lemma map_sort_key: "map f (sort_key f xs) = sort (map f xs)"
  by (rule properties_for_sort [symmetric]) simp_all

text \<open>
  C8.  Two files with the same header whose rows are permutations of each other, the
  dates pairwise distinct, give the same result: the rows are sorted by date before any
  column is computed.
\<close>

theorem row_order_does_not_matter:
  "header a = header b \<and> mset (rows a) = mset (rows b) \<and> distinct (map Date (rows a)) \<longrightarrow>
   normalize_rows (rows a) = normalize_rows (rows b) \<and>
   create_enhanced_stock_data a = create_enhanced_stock_data b"
proof
  assume h: "header a = header b \<and> mset (rows a) = mset (rows b) \<and> distinct (map Date (rows a))"
  then have "normalize_rows (rows a) = normalize_rows (rows b)"
    unfolding normalize_rows_def by (intro sort_key_unique) simp_all
  with h show "normalize_rows (rows a) = normalize_rows (rows b) \<and>
      create_enhanced_stock_data a = create_enhanced_stock_data b"
    by (simp add: create_enhanced_stock_data_def cong: option.case_cong)
qed

theorem row_order_does_not_matter_witness:
  "header two_day_input = header two_day_input_swapped \<and>
   mset (rows two_day_input) = mset (rows two_day_input_swapped) \<and>
   distinct (map Date (rows two_day_input)) \<and>
   rows two_day_input \<noteq> rows two_day_input_swapped \<and>
   create_enhanced_stock_data two_day_input = create_enhanced_stock_data two_day_input_swapped"
proof -
  have h: "header two_day_input = header two_day_input_swapped \<and>
      mset (rows two_day_input) = mset (rows two_day_input_swapped) \<and>
      distinct (map Date (rows two_day_input))"
    by (simp add: two_day_input_def two_day_input_swapped_def)
  have "rows two_day_input \<noteq> rows two_day_input_swapped"
    by (simp add: two_day_input_def two_day_input_swapped_def)
  with h row_order_does_not_matter [of two_day_input two_day_input_swapped]
  show ?thesis by blast
qed

text \<open>
  C2 (amended).  The source has no check for duplicate dates.  On a file that has the
  columns the program reads and two rows with the same date, the pipeline raises nothing:
  normalization keeps every row, sorted by date, so the date occurs twice in the table
  the features are computed on, and the result is that table pruned.
\<close>

theorem duplicate_dates_are_kept:
  "set required_columns \<subseteq> set (header inp) \<and> \<not> distinct (map Date (rows inp)) \<longrightarrow>
   create_enhanced_stock_data inp =
     Inr (dropna (feature_table (header inp) (normalize_rows (rows inp)))) \<and>
   mset (normalize_rows (rows inp)) = mset (rows inp) \<and>
   Date_col (feature_table (header inp) (normalize_rows (rows inp))) = sort (map Date (rows inp)) \<and>
   \<not> distinct (Date_col (feature_table (header inp) (normalize_rows (rows inp))))"
proof
  assume h: "set required_columns \<subseteq> set (header inp) \<and> \<not> distinct (map Date (rows inp))"
  have d: "Date_col (feature_table (header inp) (normalize_rows (rows inp))) = sort (map Date (rows inp))"
    by (simp add: feature_table_def normalize_rows_def map_sort_key)
  have "\<not> distinct (sort (map Date (rows inp)))"
    using h by simp
  with h d show "create_enhanced_stock_data inp =
     Inr (dropna (feature_table (header inp) (normalize_rows (rows inp)))) \<and>
   mset (normalize_rows (rows inp)) = mset (rows inp) \<and>
   Date_col (feature_table (header inp) (normalize_rows (rows inp))) = sort (map Date (rows inp)) \<and>
   \<not> distinct (Date_col (feature_table (header inp) (normalize_rows (rows inp))))"
    by (simp add: create_Inr_iff normalize_rows_def)
qed

theorem duplicate_dates_are_kept_witness:
  "set required_columns \<subseteq> set (header duplicate_date_input) \<and>
   \<not> distinct (map Date (rows duplicate_date_input)) \<and>
   create_enhanced_stock_data duplicate_date_input =
     Inr (dropna (feature_table (header duplicate_date_input)
            (normalize_rows (rows duplicate_date_input)))) \<and>
   Date_col (feature_table (header duplicate_date_input)
     (normalize_rows (rows duplicate_date_input))) = [0, 0]"
proof -
  have h: "set required_columns \<subseteq> set (header duplicate_date_input) \<and>
      \<not> distinct (map Date (rows duplicate_date_input))"
    by (simp add: duplicate_date_input_def full_header_def required_columns_def)
  have "sort (map Date (rows duplicate_date_input)) = [0, 0]"
    by (simp add: duplicate_date_input_def)
  with h duplicate_dates_are_kept [of duplicate_date_input]
  show ?thesis by simp
qed

text \<open>
  The claim as stated fails on a file with two rows dated day 0: the pipeline returns a
  table, and both rows are in the normalized table.
\<close>

theorem duplicate_date_counterexample:
  "\<not> distinct (map Date (rows duplicate_date_input)) \<and>
   create_enhanced_stock_data duplicate_date_input =
     Inr (dropna (feature_table full_header (normalize_rows (rows duplicate_date_input)))) \<and>
   map Date (normalize_rows (rows duplicate_date_input)) = [0, 0]"
  by (simp add: create_Inr_iff duplicate_date_input_def full_header_def required_columns_def
      normalize_rows_def)

section \<open>The look-ahead column and pruning\<close>

lemma length_next_day_return [simp]: "length (next_day_return df) = length df"
  by (simp add: next_day_return_def)

lemma next_day_return_nth:
  "i < length df \<Longrightarrow>
   next_day_return df ! i =
     (if i + 1 < length df
      then fsub (fdiv (Fin (close (df ! (i + 1)))) (Fin (close (df ! i)))) (Fin 1)
      else NaN)"
  by (simp add: next_day_return_def shift_nth_back close_col_nth)

lemma next_day_return_last: "df \<noteq> [] \<Longrightarrow> is_nan (next_day_return df ! (length df - 1))"
  by (simp add: next_day_return_nth)

lemma column_mem: "column f c = Some s \<Longrightarrow> (c, s) \<in> set (cols f)"
  by (simp add: column_def map_of_SomeD)

lemma kept_not_last:
  assumes "k \<in> set (kept (feature_table hdr df))"
  shows "k + 1 < length df"
proof -
  let ?T = "feature_table hdr df"
  have k: "k < length df"
    using kept_less [OF assms] by simp
  have "(''next_day_return'', next_day_return df) \<in> set (cols ?T)"
    by (intro column_mem column_targets)
  then have "\<not> is_nan (next_day_return df ! k)"
    using kept_complete [OF assms] complete_rowD by blast
  then show ?thesis
    using k by (simp add: next_day_return_nth split: if_splits)
qed

text \<open>
  C10.  When the pipeline returns a table, it is the table of features pruned by
  \<^verbatim>\<open>dropna\<close>, which looks at every column: \<^verbatim>\<open>next_day_return\<close> is missing at the last
  row in date order, so no kept row is the last one, and every cell of every column of
  the result, \<^verbatim>\<open>next_day_return\<close> included, holds a value.
\<close>

theorem last_row_is_always_pruned:
  "create_enhanced_stock_data inp = Inr out \<longrightarrow>
     (let df = normalize_rows (rows inp); T = feature_table (header inp) df in
        out = dropna T \<and>
        Date_col out = map (nth (map Date df)) (kept T) \<and>
        (\<forall>k\<in>set (kept T). k + 1 < length df) \<and>
        (df \<noteq> [] \<longrightarrow>
           is_nan (next_day_return df ! (length df - 1)) \<and> length df - 1 \<notin> set (kept T)) \<and>
        column T ''next_day_return'' = Some (next_day_return df) \<and>
        (\<forall>(c, s)\<in>set (cols out). length s = nrows out \<and> (\<forall>i<nrows out. \<not> is_nan (s ! i))) \<and>
        (\<exists>s. column out ''next_day_return'' = Some s \<and> (\<forall>i<nrows out. \<not> is_nan (s ! i))))"
proof
  assume a: "create_enhanced_stock_data inp = Inr out"
  define df where "df = normalize_rows (rows inp)"
  define T where "T = feature_table (header inp) df"
  have out: "out = dropna T"
    using a by (simp add: create_Inr_iff T_def df_def)
  have d: "Date_col out = map (nth (map Date df)) (kept T)"
    by (simp add: out dropna_def T_def feature_table_def)
  have k: "\<forall>k\<in>set (kept T). k + 1 < length df"
    unfolding T_def using kept_not_last by blast
  have l: "df \<noteq> [] \<longrightarrow>
      is_nan (next_day_return df ! (length df - 1)) \<and> length df - 1 \<notin> set (kept T)"
    using k next_day_return_last by fastforce
  have c: "column T ''next_day_return'' = Some (next_day_return df)"
    by (simp add: T_def column_targets)
  have e: "\<forall>(c, s)\<in>set (cols out). length s = nrows out \<and> (\<forall>i<nrows out. \<not> is_nan (s ! i))"
    unfolding out using dropna_cells by blast
  have "column out ''next_day_return'' = Some (map (nth (next_day_return df)) (kept T))"
    by (simp add: out column_dropna c)
  then have "\<exists>s. column out ''next_day_return'' = Some s \<and> (\<forall>i<nrows out. \<not> is_nan (s ! i))"
    using e column_mem by fastforce
  with out d k l c e show "let df = normalize_rows (rows inp); T = feature_table (header inp) df in
        out = dropna T \<and>
        Date_col out = map (nth (map Date df)) (kept T) \<and>
        (\<forall>k\<in>set (kept T). k + 1 < length df) \<and>
        (df \<noteq> [] \<longrightarrow>
           is_nan (next_day_return df ! (length df - 1)) \<and> length df - 1 \<notin> set (kept T)) \<and>
        column T ''next_day_return'' = Some (next_day_return df) \<and>
        (\<forall>(c, s)\<in>set (cols out). length s = nrows out \<and> (\<forall>i<nrows out. \<not> is_nan (s ! i))) \<and>
        (\<exists>s. column out ''next_day_return'' = Some s \<and> (\<forall>i<nrows out. \<not> is_nan (s ! i)))"
    unfolding Let_def df_def [symmetric] T_def [symmetric] by blast
qed

theorem last_row_is_always_pruned_witness:
  "create_enhanced_stock_data two_day_input =
     Inr (dropna (feature_table full_header (rows_of_closes 0 [10, 11]))) \<and>
   rows_of_closes 0 [10, 11] \<noteq> [] \<and>
   is_nan (next_day_return (rows_of_closes 0 [10, 11]) ! 1) \<and>
   1 \<notin> set (kept (feature_table full_header (rows_of_closes 0 [10, 11]))) \<and>
   (\<exists>s. column (dropna (feature_table full_header (rows_of_closes 0 [10, 11])))
          ''next_day_return'' = Some s)"
proof -
  have n: "normalize_rows (rows two_day_input) = rows_of_closes 0 [10, 11]"
    by (simp add: normalize_rows_def two_day_input_def)
  have h: "header two_day_input = full_header"
    by (simp add: two_day_input_def)
  have c: "create_enhanced_stock_data two_day_input =
      Inr (dropna (feature_table full_header (rows_of_closes 0 [10, 11])))"
    using create_two_day_input by (simp only: n)
  have l: "length (rows_of_closes 0 [10, 11]) - 1 = 1"
    by simp
  show ?thesis
    using last_row_is_always_pruned [of two_day_input
        "dropna (feature_table full_header (rows_of_closes 0 [10, 11]))"] c
    unfolding Let_def h n l by fastforce
qed

section \<open>Exponentially weighted means\<close>

lemma ewm_step_Fin:
  assumes "0 \<le> W" "\<alpha> \<le> 1"
  shows "ewm_step \<alpha> (Fin m, W) (Fin v) =
     (Fin ((W * (1 - \<alpha>) * m + v) / (W * (1 - \<alpha>) + 1)), W * (1 - \<alpha>) + 1)"
proof -
  have "0 \<le> W * (1 - \<alpha>)"
    using assms by simp
  then have nz: "W * (1 - \<alpha>) + 1 \<noteq> 0"
    by linarith
  have "(W * (1 - \<alpha>) * v + v) / (W * (1 - \<alpha>) + 1) = v"
    using nz by (simp add: field_simps)
  then show ?thesis
    using nz by (auto simp: ewm_step_def Let_def)
qed

lemma ewm_loop_Fin:
  assumes "0 \<le> W" "\<alpha> \<le> 1"
  shows "ewm_loop \<alpha> (Fin m, W) (map Fin vs) = map Fin (ewm_real \<alpha> (m, W) vs)"
  using assms
proof (induction vs arbitrary: m W)
  case Nil
  then show ?case by simp
next
  case (Cons v vs)
  have "0 \<le> W * (1 - \<alpha>) + 1"
    using Cons.prems by simp
  then show ?case
    using Cons.prems Cons.IH by (simp add: ewm_step_Fin Let_def)
qed

lemma ewm_mean_Fin:
  assumes "0 < spn"
  shows "ewm_mean spn (map Fin vs) = map Fin (ewm_real_mean spn vs)"
proof (cases vs)
  case Nil
  then show ?thesis by (simp add: ewm_mean_def ewm_real_mean_def)
next
  case (Cons v rest)
  have "2 / (real spn + 1) \<le> 1"
    using assms by simp
  then show ?thesis
    using Cons by (simp add: ewm_mean_def ewm_real_mean_def ewm_loop_Fin)
qed

lemma length_ewm_real [simp]: "length (ewm_real \<alpha> st vs) = length vs"
  by (induction vs arbitrary: st) (auto simp: Let_def)

lemma length_ewm_real_mean [simp]: "length (ewm_real_mean spn vs) = length vs"
  by (simp add: ewm_real_mean_def split: list.splits)

lemma weighted_sum_shift:
  fixes q :: real
  shows "(\<Sum>j\<le>Suc k. q ^ (Suc k - j) * (v # vs) ! j) =
      q ^ Suc k * v + (\<Sum>j\<le>k. q ^ (k - j) * vs ! j)"
    and "(\<Sum>j\<le>Suc k. q ^ (Suc k - j)) = q ^ Suc k + (\<Sum>j\<le>k. q ^ (k - j))"
  by (simp_all add: sum.atMost_Suc_shift del: sum.atMost_Suc)

lemma ewm_real_nth:
  assumes "0 \<le> W" "0 \<le> q" "q = 1 - \<alpha>" "k < length vs"
  shows "ewm_real \<alpha> (m, W) vs ! k =
     (W * m * q ^ (k + 1) + (\<Sum>j\<le>k. q ^ (k - j) * vs ! j)) /
     (W * q ^ (k + 1) + (\<Sum>j\<le>k. q ^ (k - j)))"
  using assms
proof (induction vs arbitrary: m W k)
  case Nil
  then show ?case by simp
next
  case (Cons v vs)
  let ?W' = "W * q + 1"
  let ?m' = "(W * q * m + v) / ?W'"
  have W': "0 < ?W'"
    using Cons.prems by (simp add: add_nonneg_pos)
  have step: "ewm_real \<alpha> (m, W) (v # vs) = ?m' # ewm_real \<alpha> (?m', ?W') vs"
    using Cons.prems by (simp add: Let_def)
  show ?case
  proof (cases k)
    case 0
    then show ?thesis
      unfolding step by simp
  next
    case (Suc k')
    have k': "k' < length vs"
      using Cons.prems Suc by simp
    have mW: "?W' * ?m' = W * q * m + v"
      using W' by simp
    have IH: "ewm_real \<alpha> (?m', ?W') vs ! k' =
        (?W' * ?m' * q ^ (k' + 1) + (\<Sum>j\<le>k'. q ^ (k' - j) * vs ! j)) /
        (?W' * q ^ (k' + 1) + (\<Sum>j\<le>k'. q ^ (k' - j)))"
      using Cons.IH [of ?W' k' ?m'] W' Cons.prems k' by simp
    have n: "W * m * q ^ (k + 1) + (\<Sum>j\<le>k. q ^ (k - j) * (v # vs) ! j) =
        ?W' * ?m' * q ^ (k' + 1) + (\<Sum>j\<le>k'. q ^ (k' - j) * vs ! j)"
      unfolding mW Suc weighted_sum_shift by (simp add: algebra_simps)
    have d: "W * q ^ (k + 1) + (\<Sum>j\<le>k. q ^ (k - j)) =
        ?W' * q ^ (k' + 1) + (\<Sum>j\<le>k'. q ^ (k' - j))"
      unfolding Suc weighted_sum_shift by (simp add: algebra_simps)
    show ?thesis
      unfolding n d step using IH Suc by simp
  qed
qed

lemma ewm_real_mean_nth:
  assumes "0 < spn" "i < length vs" "q = 1 - 2 / (real spn + 1)"
  shows "ewm_real_mean spn vs ! i = (\<Sum>j\<le>i. q ^ (i - j) * vs ! j) / (\<Sum>j\<le>i. q ^ (i - j))"
proof (cases vs)
  case Nil
  with assms show ?thesis by simp
next
  case (Cons v rest)
  have q: "0 \<le> q"
    using assms by simp
  show ?thesis
  proof (cases i)
    case 0
    then show ?thesis using Cons by (simp add: ewm_real_mean_def)
  next
    case (Suc k)
    then have k: "k < length rest"
      using assms Cons by simp
    have "ewm_real_mean spn vs ! i = ewm_real (2 / (real spn + 1)) (v, 1) rest ! k"
      using Cons Suc by (simp add: ewm_real_mean_def)
    also have "\<dots> = (1 * v * q ^ (k + 1) + (\<Sum>j\<le>k. q ^ (k - j) * rest ! j)) /
        (1 * q ^ (k + 1) + (\<Sum>j\<le>k. q ^ (k - j)))"
      using q k assms(3) by (intro ewm_real_nth) simp_all
    also have "\<dots> = (\<Sum>j\<le>i. q ^ (i - j) * vs ! j) / (\<Sum>j\<le>i. q ^ (i - j))"
      unfolding Suc Cons weighted_sum_shift by (simp add: algebra_simps)
    finally show ?thesis .
  qed
qed

lemma ema_Fin: "0 < w \<Longrightarrow> ema w df = map Fin (ewm_real_mean w (map close df))"
  unfolding ema_def close_col_Fin by (rule ewm_mean_Fin)

lemma length_ema [simp]: "length (ema w df) = length df"
  by (simp add: ema_def)

lemma column_ema:
  "w \<in> {12, 26} \<Longrightarrow> column (feature_table hdr df) (''ema_'' @ str w) = Some (ema w df)"
  by (intro column_derived) (auto simp add: derived_columns_def str_values)

lemma ema_nth:
  assumes "0 < w" "i < length df"
  shows "ema w df ! i =
     Fin ((\<Sum>j\<le>i. (1 - 2 / (real w + 1)) ^ (i - j) * close (df ! j)) /
          (\<Sum>j\<le>i. (1 - 2 / (real w + 1)) ^ (i - j)))"
proof -
  have "\<And>j. j \<in> {..i} \<Longrightarrow> map close df ! j = close (df ! j)"
    using assms by simp
  then have "(\<Sum>j\<le>i. (1 - 2 / (real w + 1)) ^ (i - j) * map close df ! j) =
      (\<Sum>j\<le>i. (1 - 2 / (real w + 1)) ^ (i - j) * close (df ! j))"
    by (intro sum.cong) simp_all
  then show ?thesis
    using assms ewm_real_mean_nth [of w i "map close df" "1 - 2 / (real w + 1)"]
    by (simp add: ema_Fin)
qed

lemma ema_first: "df \<noteq> [] \<Longrightarrow> ema w df ! 0 = Fin (close (df ! 0))"
  by (cases df) (simp_all add: ema_def ewm_mean_def close_col_def)

text \<open>
  C6 (amended).  \<^verbatim>\<open>ewm(span=w).mean()\<close> is called with the default \<^verbatim>\<open>adjust=True\<close>.  For
  a span of 12 or 26 and \<open>\<alpha> = 2/(w+1)\<close>, the column \<^verbatim>\<open>ema_w\<close> holds at row \<open>i\<close> the weighted
  average of the closes of rows \<open>0..i\<close> with weights \<open>(1-\<alpha>)\<^sup>i\<^sup>-\<^sup>j\<close>; it equals the first close
  at row 0 and has a value at every row.
\<close>

theorem ema_is_adjusted_weighted_mean:
  "(w \<in> {12, 26} \<longrightarrow>
      column (feature_table hdr df) (''ema_'' @ str w) = Some (ema w df)) \<and>
   (w \<in> {12, 26} \<and> i < length df \<longrightarrow>
      ema w df ! i =
        Fin ((\<Sum>j\<le>i. (1 - 2 / (real w + 1)) ^ (i - j) * close (df ! j)) /
             (\<Sum>j\<le>i. (1 - 2 / (real w + 1)) ^ (i - j)))) \<and>
   (df \<noteq> [] \<longrightarrow> ema w df ! 0 = Fin (close (df ! 0)))"
proof (intro conjI impI)
  assume "w \<in> {12, 26}"
  then show "column (feature_table hdr df) (''ema_'' @ str w) = Some (ema w df)"
    by (rule column_ema)
next
  assume "w \<in> {12, 26} \<and> i < length df"
  then have "0 < w" "i < length df" by auto
  then show "ema w df ! i =
        Fin ((\<Sum>j\<le>i. (1 - 2 / (real w + 1)) ^ (i - j) * close (df ! j)) /
             (\<Sum>j\<le>i. (1 - 2 / (real w + 1)) ^ (i - j)))"
    by (rule ema_nth)
next
  assume "df \<noteq> []"
  then show "ema w df ! 0 = Fin (close (df ! 0))"
    by (rule ema_first)
qed

theorem ema_is_adjusted_weighted_mean_witness:
  "(12::nat) \<in> {12, 26} \<and> 1 < length (rows_of_closes 0 [1, 2]) \<and>
   rows_of_closes 0 [1, 2] \<noteq> [] \<and>
   column (feature_table full_header (rows_of_closes 0 [1, 2])) ''ema_12''
     = Some (ema 12 (rows_of_closes 0 [1, 2])) \<and>
   ema 12 (rows_of_closes 0 [1, 2]) ! 0 = Fin 1 \<and>
   ema 12 (rows_of_closes 0 [1, 2]) ! 1 = Fin (37 / 24)"
  using ema_is_adjusted_weighted_mean [of 12 full_header "rows_of_closes 0 [1, 2]" 1]
  by (simp add: str_values)

text \<open>
  The claim as stated fails on the closes 1, 2 with span 12: the column holds 37/24 at
  row 1, the recursion of the claim gives 15/13.
\<close>

theorem ema_recursion_counterexample:
  "ema 12 (rows_of_closes 0 [1, 2]) = [Fin 1, Fin (37 / 24)] \<and>
   map Fin (ema_recursive (2 / (12 + 1)) (map close (rows_of_closes 0 [1, 2])))
     = [Fin 1, Fin (15 / 13)] \<and>
   ema 12 (rows_of_closes 0 [1, 2])
     \<noteq> map Fin (ema_recursive (2 / (12 + 1)) (map close (rows_of_closes 0 [1, 2])))"
  by (simp add: ema_def ewm_mean_def ewm_step_def close_col_def ema_recursive_def Let_def)

section \<open>RSI\<close>

lemma diff_Fin_nth:
  "i < length cs \<Longrightarrow>
   diff (map Fin cs) ! i = (if i = 0 then NaN else Fin (cs ! i - cs ! (i - 1)))"
  using shift_nth_nat [of i "map Fin cs" 1]
  by (simp add: diff_def fsub_def)

lemma length_diff [simp]: "length (diff xs) = length xs"
  by (simp add: diff_def)

lemma gain_series:
  "where_s (\<lambda>d. fgt d (Fin 0)) (Fin 0) (diff (map Fin cs)) = map Fin (gains cs)"
  by (rule nth_equalityI) (auto simp: where_s_def gains_def delta_at_def diff_Fin_nth)

lemma loss_series:
  "map fneg (where_s (\<lambda>d. flt d (Fin 0)) (Fin 0) (diff (map Fin cs))) = map Fin (losses cs)"
  by (rule nth_equalityI) (auto simp: where_s_def losses_def delta_at_def diff_Fin_nth flt_def)

lemma length_gains [simp]: "length (gains cs) = length cs"
  by (simp add: gains_def)

lemma length_losses [simp]: "length (losses cs) = length cs"
  by (simp add: losses_def)

lemma rsi_gain_nth:
  "i < length cs \<Longrightarrow>
   rsi_gain (map Fin cs) w ! i = (if i + 1 < w then NaN else Fin (mean (window_at w (gains cs) i)))"
  by (simp add: rsi_gain_def gain_series rolling_Fin_nth)

lemma rsi_loss_nth:
  "i < length cs \<Longrightarrow>
   rsi_loss (map Fin cs) w ! i = (if i + 1 < w then NaN else Fin (mean (window_at w (losses cs) i)))"
  by (simp add: rsi_loss_def loss_series rolling_Fin_nth)

lemma length_rsi_gain [simp]: "length (rsi_gain s w) = length s"
  by (simp add: rsi_gain_def where_s_def)

lemma length_rsi_loss [simp]: "length (rsi_loss s w) = length s"
  by (simp add: rsi_loss_def where_s_def)

lemma calculate_rsi_nth:
  "i < length s \<Longrightarrow>
   calculate_rsi s w ! i =
     fsub (Fin 100) (fdiv (Fin 100) (fadd (Fin 1) (fdiv (rsi_gain s w ! i) (rsi_loss s w ! i))))"
  by (simp add: calculate_rsi_def Let_def)

lemma length_calculate_rsi [simp]: "length (calculate_rsi s w) = length s"
  by (simp add: calculate_rsi_def Let_def)

lemma rsi_value:
  "fsub (Fin 100) (fdiv (Fin 100) (fadd (Fin 1) (fdiv (Fin g) (Fin l)))) =
     (if l = 0 then (if g = 0 then NaN else Fin 100)
      else if 1 + g / l = 0 then NInf
      else Fin (100 - 100 / (1 + g / l)))"
  by (auto simp: fsub_def inf_of_sign_def)

lemma calculate_rsi_zero_loss:
  assumes "i < length s" "rsi_loss s w ! i = Fin 0" "rsi_gain s w ! i = Fin g"
  shows "calculate_rsi s w ! i = (if g = 0 then NaN else Fin 100)"
  using assms by (simp only: calculate_rsi_nth rsi_value) simp

lemma window_at_conv_map:
  assumes "i < length xs" "w \<le> i + 1"
  shows "window_at w xs i = map (nth xs) [i + 1 - w..<i + 1]"
  using assms by (intro nth_equalityI) (simp_all add: window_at_def del: upt_Suc)

lemma set_window_at:
  assumes "i < length xs" "w \<le> i + 1"
  shows "set (window_at w xs i) = nth xs ` {i + 1 - w..i}"
proof -
  have "{i + 1 - w..<i + 1} = {i + 1 - w..i}" by auto
  then show ?thesis
    unfolding window_at_conv_map [OF assms] by (simp only: set_map set_upt)
qed

lemma mean_nonneg: "(\<And>v. v \<in> set vs \<Longrightarrow> 0 \<le> v) \<Longrightarrow> 0 \<le> mean vs"
  by (simp add: mean_def sum_list_nonneg)

lemma mean_eq_0_iff:
  assumes "vs \<noteq> []" "\<And>v. v \<in> set vs \<Longrightarrow> 0 \<le> v"
  shows "mean vs = 0 \<longleftrightarrow> (\<forall>v\<in>set vs. v = 0)"
  using assms by (simp add: mean_def sum_list_nonneg_eq_0_iff)

lemma gains_nth: "j < length cs \<Longrightarrow> gains cs ! j = max 0 (delta_at cs j)"
  by (simp add: gains_def)

lemma losses_nth: "j < length cs \<Longrightarrow> losses cs ! j = max 0 (- delta_at cs j)"
  by (simp add: losses_def)

lemma gains_nonneg: "v \<in> set (gains cs) \<Longrightarrow> 0 \<le> v"
  by (auto simp: gains_def)

lemma losses_nonneg: "v \<in> set (losses cs) \<Longrightarrow> 0 \<le> v"
  by (auto simp: losses_def)

lemma window_nonneg:
  assumes "\<And>v. v \<in> set xs \<Longrightarrow> (0::real) \<le> v" "v \<in> set (window_at w xs i)"
  shows "0 \<le> v"
  using assms by (auto simp: window_at_def dest!: in_set_takeD in_set_dropD)

lemma window_gains_nonneg: "v \<in> set (window_at w (gains cs) i) \<Longrightarrow> 0 \<le> v"
  by (rule window_nonneg [of "gains cs"]) (rule gains_nonneg)

lemma window_losses_nonneg: "v \<in> set (window_at w (losses cs) i) \<Longrightarrow> 0 \<le> v"
  by (rule window_nonneg [of "losses cs"]) (rule losses_nonneg)

lemma mean_gain_nonneg: "0 \<le> mean (window_at w (gains cs) i)"
  by (intro mean_nonneg window_gains_nonneg)

lemma mean_loss_nonneg: "0 \<le> mean (window_at w (losses cs) i)"
  by (intro mean_nonneg window_losses_nonneg)

lemma mean_gain_loss_zero_iff:
  assumes "i < length cs" "w \<le> i + 1" "0 < w"
  shows "mean (window_at w (gains cs) i) = 0 \<and> mean (window_at w (losses cs) i) = 0 \<longleftrightarrow>
     (\<forall>j\<in>{i + 1 - w..i}. delta_at cs j = 0)"
proof -
  have ne: "window_at w (gains cs) i \<noteq> []" "window_at w (losses cs) i \<noteq> []"
    using assms length_window_at [of i "gains cs" w] length_window_at [of i "losses cs" w]
    by auto
  have g: "mean (window_at w (gains cs) i) = 0 \<longleftrightarrow> (\<forall>j\<in>{i + 1 - w..i}. gains cs ! j = 0)"
  proof -
    have "mean (window_at w (gains cs) i) = 0 \<longleftrightarrow> (\<forall>v\<in>set (window_at w (gains cs) i). v = 0)"
      by (rule mean_eq_0_iff [OF ne(1)]) (rule window_gains_nonneg)
    then show ?thesis
      using assms by (simp add: set_window_at)
  qed
  have l: "mean (window_at w (losses cs) i) = 0 \<longleftrightarrow> (\<forall>j\<in>{i + 1 - w..i}. losses cs ! j = 0)"
  proof -
    have "mean (window_at w (losses cs) i) = 0 \<longleftrightarrow>
        (\<forall>v\<in>set (window_at w (losses cs) i). v = 0)"
      by (rule mean_eq_0_iff [OF ne(2)]) (rule window_losses_nonneg)
    then show ?thesis
      using assms by (simp add: set_window_at)
  qed
  have "gains cs ! j = 0 \<and> losses cs ! j = 0 \<longleftrightarrow> delta_at cs j = 0" if "j \<in> {i + 1 - w..i}" for j
    using that assms by (auto simp: gains_nth losses_nth max_def)
  then show ?thesis
    unfolding g l by blast
qed

lemma rsi_nth:
  assumes "i < length df"
  shows "rsi df ! i =
     (if i < 13 then NaN
      else fsub (Fin 100) (fdiv (Fin 100) (fadd (Fin 1)
             (fdiv (Fin (mean (window_at 14 (gains (map close df)) i)))
                   (Fin (mean (window_at 14 (losses (map close df)) i)))))))"
  using assms unfolding rsi_def close_col_Fin
  by (simp add: calculate_rsi_nth rsi_gain_nth rsi_loss_nth del: fdiv.simps map_map)

lemma length_rsi [simp]: "length (rsi df) = length df"
  by (simp add: rsi_def)

lemma rsi_is_nan_iff:
  assumes "i < length df" "13 \<le> i"
  shows "is_nan (rsi df ! i) \<longleftrightarrow> \<not> close_moves df i"
proof -
  let ?g = "mean (window_at 14 (gains (map close df)) i)"
  let ?l = "mean (window_at 14 (losses (map close df)) i)"
  have g: "0 \<le> ?g" by (rule mean_gain_nonneg)
  have l: "0 \<le> ?l" by (rule mean_loss_nonneg)
  have "0 \<le> ?g / ?l" using g l by simp
  then have nz: "1 + ?g / ?l \<noteq> 0" by linarith
  have "is_nan (rsi df ! i) \<longleftrightarrow> ?g = 0 \<and> ?l = 0"
    using assms nz by (simp only: rsi_nth rsi_value) auto
  also have "\<dots> \<longleftrightarrow> (\<forall>j\<in>{i + 1 - 14..i}. delta_at (map close df) j = 0)"
    using assms by (intro mean_gain_loss_zero_iff) simp_all
  also have "\<dots> \<longleftrightarrow> \<not> close_moves df i"
  proof -
    have "delta_at (map close df) j = 0 \<longleftrightarrow> \<not> (0 < j \<and> close (df ! j) \<noteq> close (df ! (j - 1)))"
      if "j \<in> {i - 13..i}" for j
    proof -
      have "j < length df" "j - 1 < length df"
        using that assms by auto
      then show ?thesis
        by (simp add: delta_at_def)
    qed
    then show ?thesis
      by (simp add: close_moves_def)
  qed
  finally show ?thesis .
qed

lemma column_indicators:
  "column (feature_table hdr df) ''rsi'' = Some (rsi df)"
  "column (feature_table hdr df) ''macd_signal'' = Some (macd_signal df)"
  by (rule column_derived, simp add: derived_columns_def str_values)+

lemma close_col_rows_of_closes: "close_col (rows_of_closes d cs) = map Fin cs"
  by (simp add: close_col_Fin)

lemma rising_gains: "gains rising_closes = [0, 1, 1, 1, 1, 1, 1, 1, 1, 1, 1, 1, 1, 1]"
  by (simp add: gains_def delta_at_def rising_closes_def upt_rec)

lemma rising_losses: "losses rising_closes = [0, 0, 0, 0, 0, 0, 0, 0, 0, 0, 0, 0, 0, 0]"
  by (simp add: losses_def delta_at_def rising_closes_def upt_rec)

lemma rising_rsi:
  "rsi_loss (close_col (rows_of_closes 0 rising_closes)) 14 ! 13 = Fin 0"
  "rsi_gain (close_col (rows_of_closes 0 rising_closes)) 14 ! 13 = Fin (13 / 14)"
  "rsi (rows_of_closes 0 rising_closes) ! 13 = Fin 100"
proof -
  have n: "13 < length rising_closes"
    by (simp add: rising_closes_def)
  show a: "rsi_loss (close_col (rows_of_closes 0 rising_closes)) 14 ! 13 = Fin 0"
    using n by (simp add: close_col_rows_of_closes rsi_loss_nth rising_losses window_at_def mean_def)
  show b: "rsi_gain (close_col (rows_of_closes 0 rising_closes)) 14 ! 13 = Fin (13 / 14)"
    using n by (simp add: close_col_rows_of_closes rsi_gain_nth rising_gains window_at_def mean_def)
  show "rsi (rows_of_closes 0 rising_closes) ! 13 = Fin 100"
    unfolding rsi_def using n calculate_rsi_zero_loss [OF _ a b] by simp
qed

text \<open>
  C4 (amended).  Where the rolling mean of the losses is 0 and the rolling mean of the
  gains is a number \<open>g\<close>, the division yields an infinity for \<open>g > 0\<close> and the RSI is
  100 there; it is missing only when \<open>g\<close> is 0 as well, the quotient being \<^verbatim>\<open>0/0\<close>.
\<close>

theorem rsi_with_zero_mean_loss:
  "column (feature_table hdr df) ''rsi'' = Some (rsi df) \<and>
   (i < length df \<and> rsi_loss (close_col df) 14 ! i = Fin 0 \<and>
    rsi_gain (close_col df) 14 ! i = Fin g \<longrightarrow>
      0 \<le> g \<and> rsi df ! i = (if g = 0 then NaN else Fin 100))"
proof (intro conjI impI)
  show "column (feature_table hdr df) ''rsi'' = Some (rsi df)"
    by (rule column_indicators)
next
  assume a: "i < length df \<and> rsi_loss (close_col df) 14 ! i = Fin 0 \<and>
    rsi_gain (close_col df) 14 ! i = Fin g"
  then have "Fin g = (if i + 1 < 14 then NaN
      else Fin (mean (window_at 14 (gains (map close df)) i)))"
    using rsi_gain_nth [of i "map close df" 14] by (simp add: close_col_Fin del: map_map)
  then have "g = mean (window_at 14 (gains (map close df)) i)"
    by (simp split: if_splits)
  then show "0 \<le> g"
    by (simp add: mean_gain_nonneg)
next
  assume a: "i < length df \<and> rsi_loss (close_col df) 14 ! i = Fin 0 \<and>
    rsi_gain (close_col df) 14 ! i = Fin g"
  then show "rsi df ! i = (if g = 0 then NaN else Fin 100)"
    unfolding rsi_def by (intro calculate_rsi_zero_loss) simp_all
qed

theorem rsi_with_zero_mean_loss_witness:
  "13 < length (rows_of_closes 0 rising_closes) \<and>
   rsi_loss (close_col (rows_of_closes 0 rising_closes)) 14 ! 13 = Fin 0 \<and>
   rsi_gain (close_col (rows_of_closes 0 rising_closes)) 14 ! 13 = Fin (13 / 14) \<and>
   rsi (rows_of_closes 0 rising_closes) ! 13 = Fin 100"
proof -
  have n: "13 < length (rows_of_closes 0 rising_closes)"
    by (simp add: rising_closes_def)
  show ?thesis
    using n rising_rsi(1,2)
      rsi_with_zero_mean_loss [of full_header "rows_of_closes 0 rising_closes" 13 "13 / 14"]
    by simp
qed

text \<open>
  The claim as stated fails on fourteen rows with the closes 1 to 14: at row 13 the mean
  loss is 0, the mean gain is 13/14, and the RSI is 100.
\<close>

theorem rsi_zero_loss_counterexample:
  "rsi_loss (close_col (rows_of_closes 0 rising_closes)) 14 ! 13 = Fin 0 \<and>
   rsi_gain (close_col (rows_of_closes 0 rising_closes)) 14 ! 13 = Fin (13 / 14) \<and>
   \<not> is_nan (rsi (rows_of_closes 0 rising_closes) ! 13)"
  by (simp add: rising_rsi)

section \<open>MACD signal\<close>

lemma map2_fsub_Fin:
  "map2 fsub (map Fin xs) (map Fin ys) = map Fin (map2 (-) xs ys)"
  by (rule nth_equalityI) (simp_all add: fsub_def)

lemma macd_Fin:
  "macd df = map Fin (map2 (-) (ewm_real_mean 12 (map close df)) (ewm_real_mean 26 (map close df)))"
  by (simp add: macd_def ema_Fin map2_fsub_Fin del: map_map)

lemma macd_signal_Fin:
  "macd_signal df = map Fin (ewm_real_mean 9
     (map2 (-) (ewm_real_mean 12 (map close df)) (ewm_real_mean 26 (map close df))))"
  unfolding macd_signal_def macd_Fin by (rule ewm_mean_Fin) simp

lemma length_macd [simp]: "length (macd df) = length df"
  by (simp add: macd_def)

lemma length_macd_signal [simp]: "length (macd_signal df) = length df"
  by (simp add: macd_signal_def)

lemma macd_signal_defined: "i < length df \<Longrightarrow> \<not> is_nan (macd_signal df ! i)"
  by (simp add: macd_signal_Fin)

lemma close_rows_of_closes_nth: "j < length cs \<Longrightarrow> close (rows_of_closes d cs ! j) = cs ! j"
  using nth_map [of j "rows_of_closes d cs" close] by simp

lemma rsi_early: "i < length df \<Longrightarrow> i < 13 \<Longrightarrow> rsi df ! i = NaN"
  by (simp add: rsi_nth)

text \<open>
  C3 (amended).  The RSI is missing at the rows 0 to 12.  At a row \<open>i \<ge> 13\<close> it has a
  value exactly when the close changes in one of the fourteen differences that end at
  \<open>i\<close>; on a flat stretch both means are 0 and the quotient is \<^verbatim>\<open>0/0\<close>.  The MACD signal
  is an exponentially weighted mean of a difference of two such means and has a value at
  every row, row 0 included.
\<close>

theorem rsi_and_macd_signal_defined_rows:
  "column (feature_table hdr df) ''rsi'' = Some (rsi df) \<and>
   column (feature_table hdr df) ''macd_signal'' = Some (macd_signal df) \<and>
   (i < length df \<longrightarrow>
      (i < 13 \<longrightarrow> is_nan (rsi df ! i)) \<and>
      (13 \<le> i \<longrightarrow> is_nan (rsi df ! i) = (\<not> close_moves df i)) \<and>
      \<not> is_nan (macd_signal df ! i))"
  by (simp add: column_indicators rsi_early rsi_is_nan_iff macd_signal_defined)

lemma rising_close_moves: "close_moves (rows_of_closes 0 rising_closes) 13"
proof -
  have "close (rows_of_closes 0 rising_closes ! 1) \<noteq> close (rows_of_closes 0 rising_closes ! (1 - 1))"
    by (simp add: close_rows_of_closes_nth rising_closes_def)
  then show ?thesis
    unfolding close_moves_def by (intro bexI [of _ 1]) simp_all
qed

theorem rsi_and_macd_signal_defined_rows_witness:
  "13 < length (rows_of_closes 0 rising_closes) \<and>
   close_moves (rows_of_closes 0 rising_closes) 13 \<and>
   is_nan (rsi (rows_of_closes 0 rising_closes) ! 12) \<and>
   \<not> is_nan (rsi (rows_of_closes 0 rising_closes) ! 13) \<and>
   \<not> is_nan (macd_signal (rows_of_closes 0 rising_closes) ! 0) \<and>
   \<not> is_nan (macd_signal (rows_of_closes 0 rising_closes) ! 13)"
proof -
  have n: "13 < length (rows_of_closes 0 rising_closes)"
    by (simp add: rising_closes_def)
  have ne: "rising_closes \<noteq> []"
    by (simp add: rising_closes_def)
  show ?thesis
    using n ne rising_close_moves
      rsi_and_macd_signal_defined_rows [of full_header "rows_of_closes 0 rising_closes" 13]
      rsi_and_macd_signal_defined_rows [of full_header "rows_of_closes 0 rising_closes" 12]
      rsi_and_macd_signal_defined_rows [of full_header "rows_of_closes 0 rising_closes" 0]
    by simp
qed

text \<open>
  The claim as stated fails twice: on a table of one row the MACD signal has a value at
  row 0, and on fourteen rows with the same close the RSI is missing at row 13.
\<close>

theorem rsi_macd_signal_counterexample:
  "\<not> is_nan (macd_signal (rows_of_closes 0 [10]) ! 0) \<and>
   is_nan (rsi (rows_of_closes 0 (replicate 14 10)) ! 13)"
proof -
  have "\<not> close_moves (rows_of_closes 0 (replicate 14 10)) 13"
    by (auto simp: close_moves_def close_rows_of_closes_nth)
  then have "is_nan (rsi (rows_of_closes 0 (replicate 14 10)) ! 13)"
    by (simp add: rsi_is_nan_iff)
  then show ?thesis
    by (simp add: macd_signal_defined)
qed

section \<open>Which cells hold a value\<close>

lemma positive_rowsD:
  assumes "positive_rows df" "i < length df"
  shows "0 < open_px (df ! i)" "0 < high (df ! i)" "0 < low (df ! i)" "0 < close (df ! i)"
    "0 < volume (df ! i)"
  using assms by (simp_all add: positive_rows_def list_all_length)

lemma base_col_nth:
  assumes "i < length df"
  shows "open_col df ! i = Fin (open_px (df ! i))" "high_col df ! i = Fin (high (df ! i))"
    "low_col df ! i = Fin (low (df ! i))" "volume_col df ! i = Fin (volume (df ! i))"
    "BuySignal_col df ! i = Fin (BuySignal (df ! i))"
  using assms
  by (simp_all add: open_col_def high_col_def low_col_def volume_col_def BuySignal_col_def)

lemma fsub_Fin [simp]: "fsub (Fin a) (Fin b) = Fin (a - b)"
  by (simp add: fsub_def)

lemma price_change_pct_nth:
  assumes "positive_rows df" "i < length df"
  shows "price_change_pct df ! i =
     Fin ((close (df ! i) - open_px (df ! i)) / open_px (df ! i) * 100)"
  using assms positive_rowsD(1) [OF assms]
  by (simp add: price_change_pct_def times100_def base_col_nth close_col_nth)

lemma elementwise_defined:
  assumes "positive_rows df" "i < length df"
  shows "\<not> is_nan (price_range df ! i)" "\<not> is_nan (price_change df ! i)"
    "\<not> is_nan (price_change_pct df ! i)" "\<not> is_nan (close_to_open_ratio df ! i)"
    "\<not> is_nan (high_to_low_ratio df ! i)" "\<not> is_nan (close_to_high_ratio df ! i)"
    "\<not> is_nan (close_to_low_ratio df ! i)" "\<not> is_nan (price_range_pct df ! i)"
    "\<not> is_nan (volume_price_trend df ! i)" "\<not> is_nan (buy_signal_strength df ! i)"
  using assms positive_rowsD [OF assms]
  by (simp_all add: price_range_def price_change_def price_change_pct_nth
      close_to_open_ratio_def high_to_low_ratio_def close_to_high_ratio_def
      close_to_low_ratio_def price_range_pct_def volume_price_trend_def
      buy_signal_strength_def times100_def base_col_nth close_col_nth)

lemma calendar_defined:
  assumes "i < length df"
  shows "\<not> is_nan (day_of_week df ! i)" "\<not> is_nan (month df ! i)"
    "\<not> is_nan (quarter df ! i)" "\<not> is_nan (year df ! i)"
  using assms by (simp_all add: day_of_week_def month_def quarter_def year_def)

lemma np_where_gt_defined:
  "i < length xs \<Longrightarrow> i < length ys \<Longrightarrow> \<not> is_nan (np_where_gt xs ys ! i)"
  by (simp add: np_where_gt_nth)

lemma trend_defined:
  assumes "i < length df"
  shows "\<not> is_nan (trend_5 df ! i)" "\<not> is_nan (trend_20 df ! i)"
    "\<not> is_nan (golden_cross df ! i)"
  using assms by (simp_all add: trend_5_def trend_20_def golden_cross_def np_where_gt_defined)

lemma base_defined:
  assumes "i < length df" "base_series c df = Some s" "c \<in> set full_header"
  shows "\<not> is_nan (s ! i)"
  using assms
  by (auto simp: base_series_def full_header_def base_col_nth close_col_nth split: if_splits)

lemma base_columns_defined:
  assumes "i < length df" "(c, s) \<in> set (base_columns hdr df)" "set hdr \<subseteq> set full_header"
  shows "\<not> is_nan (s ! i)"
proof -
  from assms(2) have "base_series c df = Some s" "c \<in> set hdr"
    by (auto simp: base_columns_def split: option.splits)
  with assms(1,3) show ?thesis by (intro base_defined [of i df c s]) auto
qed

subsection \<open>Shifted columns\<close>

lemma lag_defined:
  assumes "positive_rows df" "i < length df" "k \<le> i"
  shows "\<not> is_nan (close_lag k df ! i)" "\<not> is_nan (volume_lag k df ! i)"
    "\<not> is_nan (price_change_lag k df ! i)"
proof -
  have k: "i - k < length df" using assms by simp
  show "\<not> is_nan (close_lag k df ! i)"
    using assms k by (simp add: close_lag_def shift_nth_nat close_col_nth)
  show "\<not> is_nan (volume_lag k df ! i)"
    using assms k by (simp add: volume_lag_def shift_nth_nat base_col_nth)
  show "\<not> is_nan (price_change_lag k df ! i)"
    using assms k by (simp add: price_change_lag_def shift_nth_nat price_change_pct_nth)
qed

lemma roc_defined:
  assumes "positive_rows df" "i < length df" "p \<le> i"
  shows "\<not> is_nan (roc p df ! i)"
proof -
  have k: "i - p < length df" using assms by simp
  have "0 < close (df ! (i - p))"
    using assms(1) k by (rule positive_rowsD)
  then show ?thesis
    using assms k by (simp add: roc_def times100_def shift_nth_nat close_col_nth)
qed

lemma volume_change_defined:
  assumes "positive_rows df" "i < length df" "1 \<le> i"
  shows "\<not> is_nan (volume_change df ! i)"
proof -
  have k: "i - 1 < length df" using assms by simp
  have "0 < volume (df ! (i - 1))"
    using assms(1) k by (rule positive_rowsD)
  then show ?thesis
    using assms k shift_nth_nat [of i "volume_col df" 1]
    by (simp add: volume_change_def pct_change_def base_col_nth)
qed

lemma next_day_return_defined:
  assumes "positive_rows df" "i + 1 < length df"
  shows "\<not> is_nan (next_day_return df ! i)"
proof -
  have "0 < close (df ! i)"
    using assms by (intro positive_rowsD) simp_all
  then show ?thesis
    using assms by (simp add: next_day_return_nth)
qed

subsection \<open>Rolling columns\<close>

lemma rolling_base_nth:
  assumes "i < length df" "w \<le> i + 1"
  shows "rolling w agg (map (\<lambda>r. Fin (f r)) df) ! i = Fin (agg (window_at w (map f df) i))"
proof -
  have "map (\<lambda>r. Fin (f r)) df = map Fin (map f df)"
    by simp
  then show ?thesis
    using assms rolling_Fin_nth [of i "map f df" w agg] by (simp del: map_map)
qed

lemma window_at_subset: "set (window_at w xs i) \<subseteq> set xs"
  by (auto simp: window_at_def dest!: in_set_takeD in_set_dropD)

lemma sum_list_pos:
  fixes vs :: "real list"
  shows "vs \<noteq> [] \<Longrightarrow> (\<And>v. v \<in> set vs \<Longrightarrow> 0 < v) \<Longrightarrow> 0 < sum_list vs"
proof (induction vs)
  case Nil
  then show ?case by simp
next
  case (Cons v vs)
  have "0 \<le> sum_list vs"
    using Cons.prems(2) by (intro sum_list_nonneg) (simp add: less_imp_le)
  moreover have "0 < v"
    using Cons.prems(2) by simp
  ultimately show ?case by simp
qed

lemma mean_pos: "vs \<noteq> [] \<Longrightarrow> (\<And>v. v \<in> set vs \<Longrightarrow> 0 < v) \<Longrightarrow> 0 < mean vs"
  by (simp add: mean_def sum_list_pos)

lemma window_mean_pos:
  assumes "i < length df" "w \<le> i + 1" "0 < w" "\<And>r. r \<in> set df \<Longrightarrow> 0 < f r"
  shows "0 < mean (window_at w (map f df) i)"
proof (rule mean_pos)
  have "length (window_at w (map f df) i) = w"
    using assms by (simp add: length_window_at)
  then show "window_at w (map f df) i \<noteq> []"
    using assms(3) by auto
  fix v
  assume "v \<in> set (window_at w (map f df) i)"
  then have "v \<in> set (map f df)"
    using window_at_subset [of w "map f df" i] by (simp only: subset_iff)
  then show "0 < v"
    using assms(4) by auto
qed

lemma positive_rows_set:
  assumes "positive_rows df" "r \<in> set df"
  shows "0 < close r" "0 < volume r"
  using assms by (simp_all add: positive_rows_def list_all_iff)

lemma sma_family_defined:
  assumes "positive_rows df" "i < length df" "w \<le> i + 1" "0 < w"
  shows "\<not> is_nan (sma w df ! i)" "\<not> is_nan (volume_sma w df ! i)"
    "\<not> is_nan (close_vs_sma w df ! i)" "\<not> is_nan (volume_vs_sma w df ! i)"
proof -
  have c: "0 < mean (window_at w (map close df) i)"
    using assms positive_rows_set(1) [OF assms(1)] by (intro window_mean_pos) simp_all
  have v: "0 < mean (window_at w (map volume df) i)"
    using assms positive_rows_set(2) [OF assms(1)] by (intro window_mean_pos) simp_all
  have s: "sma w df ! i = Fin (mean (window_at w (map close df) i))"
    using assms by (simp add: sma_def close_col_def rolling_base_nth)
  have vs: "volume_sma w df ! i = Fin (mean (window_at w (map volume df) i))"
    using assms by (simp add: volume_sma_def volume_col_def rolling_base_nth)
  show "\<not> is_nan (sma w df ! i)" "\<not> is_nan (volume_sma w df ! i)"
    by (simp_all add: s vs)
  show "\<not> is_nan (close_vs_sma w df ! i)"
    using assms c by (simp add: close_vs_sma_def s close_col_nth)
  show "\<not> is_nan (volume_vs_sma w df ! i)"
    using assms v by (simp add: volume_vs_sma_def volume_sma_def vs [unfolded volume_sma_def]
        base_col_nth)
qed

lemma std_pos:
  assumes "2 \<le> length vs" "a \<in> set vs" "b \<in> set vs" "a \<noteq> b"
  shows "0 < std vs"
proof -
  let ?sq = "map (\<lambda>v. (v - mean vs)\<^sup>2) vs"
  have nn: "\<And>x. x \<in> set ?sq \<Longrightarrow> 0 \<le> x"
    by auto
  have "a \<noteq> mean vs \<or> b \<noteq> mean vs"
    using assms(4) by auto
  then have "\<exists>x\<in>set ?sq. x \<noteq> 0"
    using assms(2,3) by auto
  then have "sum_list ?sq \<noteq> 0"
    using sum_list_nonneg_eq_0_iff [of ?sq] nn by blast
  moreover have "0 \<le> sum_list ?sq"
    using nn by (rule sum_list_nonneg)
  ultimately have "0 < sum_list ?sq"
    by simp
  moreover have "0 < real (length vs) - 1"
    using assms(1) by simp
  ultimately show ?thesis
    by (simp add: std_def)
qed

lemma window_std_pos:
  assumes "i < length df" "19 \<le> i" "close_moves df i"
  shows "0 < std (window_at 20 (map close df) i)"
proof -
  from assms(3) obtain j where j: "i - 13 \<le> j" "j \<le> i" "0 < j"
      and ne: "close (df ! j) \<noteq> close (df ! (j - 1))"
    by (auto simp: close_moves_def)
  have w: "set (window_at 20 (map close df) i) = nth (map close df) ` {i + 1 - 20..i}"
    using assms by (intro set_window_at) simp_all
  have "j \<in> {i + 1 - 20..i}" "j - 1 \<in> {i + 1 - 20..i}"
    using j assms(2) by auto
  then have "map close df ! j \<in> set (window_at 20 (map close df) i)"
      "map close df ! (j - 1) \<in> set (window_at 20 (map close df) i)"
    unfolding w by blast+
  moreover have "map close df ! j = close (df ! j)" "map close df ! (j - 1) = close (df ! (j - 1))"
    using j assms(1) by simp_all
  moreover have "length (window_at 20 (map close df) i) = 20"
    using assms by (simp add: length_window_at)
  ultimately show ?thesis
    using ne by (intro std_pos [of _ "close (df ! j)" "close (df ! (j - 1))"]) simp_all
qed

lemma bollinger_defined:
  assumes "i < length df" "19 \<le> i"
  shows "\<not> is_nan (bb_middle df ! i)" "\<not> is_nan (bb_upper df ! i)"
    "\<not> is_nan (bb_lower df ! i)" "\<not> is_nan (bb_width df ! i)"
  using assms
  by (simp_all add: bb_middle_def bb_upper_def bb_lower_def bb_width_def bb_std_def
      close_col_def rolling_base_nth)

lemma bb_position_defined:
  assumes "i < length df" "19 \<le> i" "close_moves df i"
  shows "\<not> is_nan (bb_position df ! i)"
  using assms window_std_pos [OF assms]
  by (simp add: bb_position_def bb_middle_def bb_upper_def bb_lower_def bb_std_def
      close_col_def rolling_base_nth)

lemma volatility_defined:
  assumes "i < length df" "w \<le> i + 1"
  shows "\<not> is_nan (volatility w df ! i)"
  using assms by (simp add: volatility_def close_col_def rolling_base_nth)

lemma support_resistance_defined:
  assumes "positive_rows df" "i < length df" "19 \<le> i"
  shows "\<not> is_nan (recent_high df ! i)" "\<not> is_nan (recent_low df ! i)"
    "\<not> is_nan (distance_to_high df ! i)" "\<not> is_nan (distance_to_low df ! i)"
  using assms positive_rowsD(4) [OF assms(1,2)]
  by (simp_all add: recent_high_def recent_low_def distance_to_high_def distance_to_low_def
      times100_def high_col_def low_col_def rolling_base_nth close_col_nth)

subsection \<open>Exponentially weighted columns\<close>

lemma macd_family_defined:
  assumes "i < length df"
  shows "\<not> is_nan (ema 12 df ! i)" "\<not> is_nan (ema 26 df ! i)" "\<not> is_nan (macd df ! i)"
    "\<not> is_nan (macd_histogram df ! i)"
  using assms
  by (simp_all add: ema_Fin macd_Fin macd_histogram_def macd_signal_Fin)

section \<open>The rows that survive pruning\<close>

lemma column_sma_50: "column (feature_table hdr df) ''sma_50'' = Some (sma 50 df)"
  using column_sma [of 50 hdr df] by (simp add: str_values)

text \<open>
  Whatever the file holds, a complete row is neither among the first 49, where
  \<^verbatim>\<open>sma_50\<close> is missing, nor the last, where \<^verbatim>\<open>next_day_return\<close> is.
\<close>

lemma complete_row_bounds:
  assumes "i < length df" "complete_row (feature_table hdr df) i"
  shows "49 \<le> i" "i + 1 < length df"
proof -
  have "\<not> is_nan (sma 50 df ! i)"
    using assms(2) column_mem [OF column_sma_50] complete_rowD by blast
  then show "49 \<le> i"
    using assms(1) by (simp add: sma_window split: if_splits)
  have "\<not> is_nan (next_day_return df ! i)"
    using assms(2) column_mem [OF column_targets(2)] complete_rowD by blast
  then show "i + 1 < length df"
    using assms(1) by (simp add: next_day_return_nth split: if_splits)
qed

lemma incomplete_rows:
  assumes "k < length df"
  shows "k < 49 \<longrightarrow> is_nan (sma 50 df ! k) \<and> \<not> complete_row (feature_table hdr df) k"
    and "k = length df - 1 \<longrightarrow>
      is_nan (next_day_return df ! k) \<and> \<not> complete_row (feature_table hdr df) k"
proof -
  show "k < 49 \<longrightarrow> is_nan (sma 50 df ! k) \<and> \<not> complete_row (feature_table hdr df) k"
    using assms complete_row_bounds(1) [OF assms, of hdr] by (auto simp: sma_window)
  show "k = length df - 1 \<longrightarrow>
      is_nan (next_day_return df ! k) \<and> \<not> complete_row (feature_table hdr df) k"
    using assms complete_row_bounds(2) [OF assms, of hdr] by (auto simp: next_day_return_nth)
qed

lemma distinct_kept: "distinct (kept f)"
  by (simp add: kept_def)

lemma set_kept: "set (kept f) = {k. k < nrows f \<and> complete_row f k}"
  by (auto simp: kept_def)

lemma kept_bounds: "set (kept (feature_table hdr df)) \<subseteq> {49..<length df - 1}"
proof
  fix k
  assume "k \<in> set (kept (feature_table hdr df))"
  then have "k < length df" "complete_row (feature_table hdr df) k"
    by (simp_all add: set_kept)
  then have "49 \<le> k" "k + 1 < length df"
    by (rule complete_row_bounds)+
  then show "k \<in> {49..<length df - 1}"
    by simp
qed

lemma length_kept_le: "length (kept (feature_table hdr df)) \<le> length df - 50"
proof -
  have "card (set (kept (feature_table hdr df))) \<le> card {49..<length df - 1}"
    by (intro card_mono kept_bounds) simp
  then show ?thesis
    by (simp add: distinct_card [OF distinct_kept])
qed

lemma length_kept_eq_iff:
  "length (kept (feature_table hdr df)) = length df - 50 \<longleftrightarrow>
   (\<forall>k. 49 \<le> k \<and> k + 1 < length df \<longrightarrow> complete_row (feature_table hdr df) k)"
proof
  assume l: "length (kept (feature_table hdr df)) = length df - 50"
  have c: "card (set (kept (feature_table hdr df))) = length (kept (feature_table hdr df))"
    by (rule distinct_card [OF distinct_kept])
  have "card {49..<length df - 1} = length df - 50"
    by simp
  then have "card (set (kept (feature_table hdr df))) = card {49..<length df - 1}"
    using c l by (simp only:)
  then have e: "set (kept (feature_table hdr df)) = {49..<length df - 1}"
    by (intro card_subset_eq kept_bounds) simp_all
  show "\<forall>k. 49 \<le> k \<and> k + 1 < length df \<longrightarrow> complete_row (feature_table hdr df) k"
  proof (intro allI impI)
    fix k
    assume h: "49 \<le> k \<and> k + 1 < length df"
    from h have h1: "49 \<le> k" and h2: "k + 1 < length df"
      by blast+
    from h2 have "k < length df - 1"
      by simp
    with h1 have "k \<in> {49..<length df - 1}"
      by simp
    then have "k \<in> set (kept (feature_table hdr df))"
      by (simp only: e)
    then show "complete_row (feature_table hdr df) k"
      by (rule kept_complete)
  qed
next
  assume a: "\<forall>k. 49 \<le> k \<and> k + 1 < length df \<longrightarrow> complete_row (feature_table hdr df) k"
  have "{49..<length df - 1} \<subseteq> set (kept (feature_table hdr df))"
  proof
    fix k
    assume "k \<in> {49..<length df - 1}"
    then have "49 \<le> k" and "k < length df - 1"
      by simp_all
    then have k: "49 \<le> k \<and> k + 1 < length df"
      by (simp add: less_diff_conv)
    then have "complete_row (feature_table hdr df) k"
      using a by blast
    moreover have "k < nrows (feature_table hdr df)"
      using k by simp
    ultimately show "k \<in> set (kept (feature_table hdr df))"
      by (simp only: set_kept mem_Collect_eq conj_commute)
  qed
  with kept_bounds [of hdr df] have "set (kept (feature_table hdr df)) = {49..<length df - 1}"
    by (rule equalityI)
  then have "card (set (kept (feature_table hdr df))) = card {49..<length df - 1}"
    by (simp only:)
  also have "\<dots> = length df - 50"
    by simp
  finally show "length (kept (feature_table hdr df)) = length df - 50"
    by (simp only: distinct_card [OF distinct_kept])
qed

lemma positive_rows_normalize: "positive_rows rs \<Longrightarrow> positive_rows (normalize_rows rs)"
  by (simp add: positive_rows_def normalize_rows_def list_all_iff)

lemma length_normalize_rows [simp]: "length (normalize_rows rs) = length rs"
  by (simp add: normalize_rows_def)

subsection \<open>The count in exact arithmetic\<close>

text \<open>
  In exact arithmetic, on a file with no other columns than the seven the program reads,
  positive prices and volumes and a close that moves, the rows 49 to \<open>n - 2\<close> are all
  complete.  These lemmas serve the example of 51 rows below; its values are 10, 11 and
  1, on which float64 rounding leaves no cell missing.
\<close>

lemma derived_columns_complete:
  assumes "positive_rows df" "49 \<le> i" "i + 1 < length df" "close_moves df i"
  shows "list_all (\<lambda>(c, s). \<not> is_nan (s ! i)) (derived_columns df)"
  using assms
  by (simp add: derived_columns_def elementwise_defined calendar_defined trend_defined
      lag_defined roc_defined volume_change_defined next_day_return_defined
      sma_family_defined bollinger_defined bb_position_defined volatility_defined
      support_resistance_defined macd_family_defined macd_signal_defined rsi_is_nan_iff)

lemma base_columns_complete:
  assumes "i < length df" "set hdr \<subseteq> set full_header"
  shows "list_all (\<lambda>(c, s). \<not> is_nan (s ! i)) (base_columns hdr df)"
  using assms base_columns_defined by (fastforce simp: list_all_iff)

lemma complete_row_iff:
  assumes "positive_rows df" "i < length df" "49 \<le> i \<longrightarrow> close_moves df i"
    and "set hdr \<subseteq> set full_header"
  shows "complete_row (feature_table hdr df) i \<longleftrightarrow> 49 \<le> i \<and> i + 1 < length df"
proof
  assume "complete_row (feature_table hdr df) i"
  then show "49 \<le> i \<and> i + 1 < length df"
    using complete_row_bounds [OF assms(2)] by blast
next
  assume a: "49 \<le> i \<and> i + 1 < length df"
  have b: "list_all (\<lambda>(c, s). \<not> is_nan (s ! i)) (base_columns hdr df)"
    using assms(2,4) by (rule base_columns_complete)
  have d: "list_all (\<lambda>(c, s). \<not> is_nan (s ! i)) (derived_columns df)"
    using a assms(1,3) by (intro derived_columns_complete) simp_all
  show "complete_row (feature_table hdr df) i"
    unfolding complete_row_def list_all_iff
    using b d cols_feature_table [of hdr df] by (auto simp: list_all_iff)
qed

lemma filter_upt_interval:
  assumes "\<And>i. i < n \<Longrightarrow> P i \<longleftrightarrow> a \<le> i \<and> i < b" "b \<le> n"
  shows "filter P [0..<n] = [a..<b]"
proof (rule sorted_distinct_set_unique)
  show "sorted (filter P [0..<n])" by (rule sorted_wrt_filter) simp
  show "distinct (filter P [0..<n])" by simp
  show "sorted [a..<b]" by simp
  show "distinct [a..<b]" by simp
  show "set (filter P [0..<n]) = set [a..<b]"
    using assms by auto
qed

lemma kept_feature_table:
  assumes "positive_rows df" "\<And>i. 49 \<le> i \<Longrightarrow> i < length df \<Longrightarrow> close_moves df i"
    and "set hdr \<subseteq> set full_header"
  shows "kept (feature_table hdr df) = [49..<length df - 1]"
  unfolding kept_def nrows_feature_table
proof (rule filter_upt_interval)
  fix i
  assume "i < length df"
  then show "complete_row (feature_table hdr df) i \<longleftrightarrow> 49 \<le> i \<and> i < length df - 1"
    using assms complete_row_iff [of df i hdr] by auto
qed simp

lemma pruned_rows:
  assumes "set required_columns \<subseteq> set (header inp)" "positive_rows (rows inp)"
    and "\<And>i. 49 \<le> i \<Longrightarrow> i < length (rows inp) \<Longrightarrow> close_moves (normalize_rows (rows inp)) i"
    and "set (header inp) \<subseteq> set full_header"
  shows "create_enhanced_stock_data inp =
      Inr (dropna (feature_table (header inp) (normalize_rows (rows inp))))"
    and "kept (feature_table (header inp) (normalize_rows (rows inp))) =
      [49..<length (rows inp) - 1]"
    and "nrows (dropna (feature_table (header inp) (normalize_rows (rows inp)))) =
      length (rows inp) - 50"
proof -
  show "create_enhanced_stock_data inp =
      Inr (dropna (feature_table (header inp) (normalize_rows (rows inp))))"
    using assms(1) by (simp add: create_Inr_iff)
  show k: "kept (feature_table (header inp) (normalize_rows (rows inp))) =
      [49..<length (rows inp) - 1]"
    using kept_feature_table [of "normalize_rows (rows inp)" "header inp"]
      positive_rows_normalize [OF assms(2)] assms(3,4) by simp
  show "nrows (dropna (feature_table (header inp) (normalize_rows (rows inp)))) =
      length (rows inp) - 50"
    by (simp add: k)
qed

subsection \<open>The table of 51 rows\<close>

lemma rows_of_closes_dates: "r \<in> set (rows_of_closes d cs) \<Longrightarrow> d \<le> Date r"
  by (induction cs arbitrary: d) fastforce+

lemma rows_of_closes_sorted: "sorted (map Date (rows_of_closes d cs))"
proof (induction cs arbitrary: d)
  case Nil
  then show ?case by simp
next
  case (Cons c cs)
  have "\<And>r. r \<in> set (rows_of_closes (d + 1) cs) \<Longrightarrow> d \<le> Date r"
    using rows_of_closes_dates by fastforce
  then show ?case
    using Cons.IH by auto
qed

lemma normalize_rows_of_closes: "normalize_rows (rows_of_closes d cs) = rows_of_closes d cs"
  unfolding normalize_rows_def by (rule sort_key_id_if_sorted) (rule rows_of_closes_sorted)

lemma positive_rows_of_closes:
  "(\<And>c. c \<in> set cs \<Longrightarrow> 0 < c) \<Longrightarrow> positive_rows (rows_of_closes d cs)"
  by (induction cs arbitrary: d) (simp_all add: positive_rows_def)

lemma zigzag_nth: "i < n \<Longrightarrow> zigzag_closes n ! i = 10 + real (i mod 2)"
  by (simp add: zigzag_closes_def)

lemma length_zigzag [simp]: "length (zigzag_closes n) = n"
  by (simp add: zigzag_closes_def)

lemma zigzag_moves:
  assumes "0 < i" "i < n"
  shows "close_moves (rows_of_closes 0 (zigzag_closes n)) i"
proof -
  have p: "i mod 2 \<noteq> (i - 1) mod 2"
    using assms(1) by (cases i) (simp_all add: mod_Suc)
  have i1: "i - 1 < n"
    using assms by simp
  have "close (rows_of_closes 0 (zigzag_closes n) ! i) = 10 + real (i mod 2)"
    using assms(2) by (simp add: close_rows_of_closes_nth zigzag_nth)
  moreover have "close (rows_of_closes 0 (zigzag_closes n) ! (i - 1)) = 10 + real ((i - 1) mod 2)"
    using i1 by (simp only: close_rows_of_closes_nth zigzag_nth length_zigzag)
  ultimately have "close (rows_of_closes 0 (zigzag_closes n) ! i)
      \<noteq> close (rows_of_closes 0 (zigzag_closes n) ! (i - 1))"
    using p by simp
  then show ?thesis
    unfolding close_moves_def using assms(1) by (intro bexI [of _ i]) simp_all
qed

lemma long_input_facts:
  "set required_columns \<subseteq> set (header long_input)"
  "positive_rows (rows long_input)"
  "length (rows long_input) = 51"
  "normalize_rows (rows long_input) = rows long_input"
  "49 \<le> i \<and> i < length (rows long_input) \<longrightarrow> close_moves (normalize_rows (rows long_input)) i"
  "set (header long_input) \<subseteq> set full_header"
proof -
  show "set required_columns \<subseteq> set (header long_input)"
    by (simp add: long_input_def full_header_def required_columns_def)
  show "positive_rows (rows long_input)"
    unfolding long_input_def by (simp, intro positive_rows_of_closes) (auto simp: zigzag_closes_def)
  show l: "length (rows long_input) = 51"
    by (simp add: long_input_def)
  show n: "normalize_rows (rows long_input) = rows long_input"
    by (simp add: long_input_def normalize_rows_of_closes)
  show "49 \<le> i \<and> i < length (rows long_input) \<longrightarrow>
      close_moves (normalize_rows (rows long_input)) i"
    unfolding n l by (auto simp: long_input_def intro!: zigzag_moves)
  show "set (header long_input) \<subseteq> set full_header"
    by (simp add: long_input_def)
qed

lemma create_long_input:
  "create_enhanced_stock_data long_input =
     Inr (dropna (feature_table (header long_input) (normalize_rows (rows long_input))))"
  using long_input_facts(1) by (simp add: create_Inr_iff)

section \<open>The row count\<close>

text \<open>
  C1 (amended).  \<^verbatim>\<open>dropna()\<close> is called without a subset, so no column is exempt: a row
  of the \<open>n\<close> rows is dropped exactly when some column of the table, the look-ahead
  column \<^verbatim>\<open>next_day_return\<close> and any further column of the file included, is missing
  there.  The first 49 rows are always dropped, \<^verbatim>\<open>sma_50\<close> being missing there, and so
  is the last, where \<^verbatim>\<open>next_day_return\<close> is missing.  The kept rows therefore lie among
  \<open>49..n-2\<close>, the result has at most \<open>n - 50\<close> rows (none for \<open>n \<le> 50\<close>), and it has
  \<open>n - 50\<close> rows exactly when no column is missing anywhere in the rows \<open>49..n-2\<close>.
\<close>

theorem row_count_after_pruning:
  "create_enhanced_stock_data inp = Inr out \<longrightarrow>
     (let df = normalize_rows (rows inp); T = feature_table (header inp) df;
          n = length (rows inp) in
        out = dropna T \<and>
        nrows out = length (filter (complete_row T) [0..<n]) \<and>
        (\<forall>k<n. k < 49 \<longrightarrow> is_nan (sma 50 df ! k) \<and> \<not> complete_row T k) \<and>
        (0 < n \<longrightarrow> is_nan (next_day_return df ! (n - 1)) \<and> \<not> complete_row T (n - 1)) \<and>
        set (kept T) \<subseteq> {49..<n - 1} \<and>
        nrows out \<le> n - 50 \<and>
        (nrows out = n - 50) = (\<forall>k. 49 \<le> k \<and> k + 1 < n \<longrightarrow> complete_row T k))"
proof
  assume a: "create_enhanced_stock_data inp = Inr out"
  define df where "df = normalize_rows (rows inp)"
  define T where "T = feature_table (header inp) df"
  define n where "n = length (rows inp)"
  have n: "length df = n"
    by (simp add: df_def n_def)
  have out: "out = dropna T"
    using a by (simp add: create_Inr_iff T_def df_def)
  have c: "nrows out = length (filter (complete_row T) [0..<n])"
    by (simp add: out kept_def T_def n [symmetric])
  have f: "\<forall>k<n. k < 49 \<longrightarrow> is_nan (sma 50 df ! k) \<and> \<not> complete_row T k"
    unfolding T_def using incomplete_rows(1) [of _ df "header inp"] n by blast
  have l: "0 < n \<longrightarrow> is_nan (next_day_return df ! (n - 1)) \<and> \<not> complete_row T (n - 1)"
    unfolding T_def using incomplete_rows(2) [of "n - 1" df "header inp"] n by simp
  have k: "set (kept T) \<subseteq> {49..<n - 1}"
    unfolding T_def using kept_bounds [of "header inp" df] n by simp
  have le: "nrows out \<le> n - 50"
    unfolding out T_def using length_kept_le [of "header inp" df] n by simp
  have eq: "(nrows out = n - 50) = (\<forall>k. 49 \<le> k \<and> k + 1 < n \<longrightarrow> complete_row T k)"
    unfolding out T_def using length_kept_eq_iff [of "header inp" df] n by simp
  from out c f l k le eq
  show "let df = normalize_rows (rows inp); T = feature_table (header inp) df;
          n = length (rows inp) in
        out = dropna T \<and>
        nrows out = length (filter (complete_row T) [0..<n]) \<and>
        (\<forall>k<n. k < 49 \<longrightarrow> is_nan (sma 50 df ! k) \<and> \<not> complete_row T k) \<and>
        (0 < n \<longrightarrow> is_nan (next_day_return df ! (n - 1)) \<and> \<not> complete_row T (n - 1)) \<and>
        set (kept T) \<subseteq> {49..<n - 1} \<and>
        nrows out \<le> n - 50 \<and>
        (nrows out = n - 50) = (\<forall>k. 49 \<le> k \<and> k + 1 < n \<longrightarrow> complete_row T k)"
    unfolding Let_def df_def [symmetric] T_def [symmetric] n_def [symmetric]
    by (intro conjI)
qed

theorem row_count_after_pruning_witness:
  "create_enhanced_stock_data long_input =
     Inr (dropna (feature_table (header long_input) (normalize_rows (rows long_input)))) \<and>
   length (rows long_input) = 51 \<and>
   is_nan (next_day_return (normalize_rows (rows long_input)) ! 50) \<and>
   nrows (dropna (feature_table (header long_input) (normalize_rows (rows long_input)))) \<le> 1"
proof -
  note t = row_count_after_pruning [of long_input
      "dropna (feature_table (header long_input) (normalize_rows (rows long_input)))",
      THEN mp, OF create_long_input, unfolded Let_def]
  note last = t [THEN conjunct2, THEN conjunct2, THEN conjunct2, THEN conjunct1]
  note bound = t [THEN conjunct2, THEN conjunct2, THEN conjunct2, THEN conjunct2,
      THEN conjunct2, THEN conjunct1]
  have "is_nan (next_day_return (normalize_rows (rows long_input)) ! 50)"
    using last by (simp add: long_input_facts(3))
  moreover have
    "nrows (dropna (feature_table (header long_input) (normalize_rows (rows long_input)))) \<le> 1"
    using bound by (simp add: long_input_facts(3))
  ultimately show ?thesis
    using create_long_input long_input_facts(3) by (intro conjI)
qed

text \<open>
  The claim as stated fails on 51 valid rows: only row 49 survives, the last row being
  dropped for its missing \<^verbatim>\<open>next_day_return\<close>, so the result has one row, not two.
\<close>

theorem row_count_counterexample:
  "length (rows long_input) = 51 \<and>
   create_enhanced_stock_data long_input =
     Inr (dropna (feature_table (header long_input) (normalize_rows (rows long_input)))) \<and>
   nrows (dropna (feature_table (header long_input) (normalize_rows (rows long_input)))) = 1 \<and>
   50 \<notin> set (kept (feature_table (header long_input) (normalize_rows (rows long_input))))"
proof -
  have h: "\<And>i. 49 \<le> i \<Longrightarrow> i < length (rows long_input) \<Longrightarrow>
      close_moves (normalize_rows (rows long_input)) i"
    using long_input_facts(5) by blast
  have k: "kept (feature_table (header long_input) (normalize_rows (rows long_input))) = [49]"
    using pruned_rows(2) [OF long_input_facts(1,2) h long_input_facts(6)]
    by (simp add: long_input_facts(3) upt_rec)
  show ?thesis
    using pruned_rows(1,3) [OF long_input_facts(1,2) h long_input_facts(6)] k
    by (simp add: long_input_facts(3))
qed

end
